theory Spec2Isabelle
  imports Complex_Main "HOL-Library.Multiset"
begin

section \<open>Tina Nova Defense: the simulation core of \<^verbatim>\<open>TinaNovaDefense.tsx\<close>\<close>

text \<open>
  The component keeps its simulation in one mutable object (\<^verbatim>\<open>state.current\<close>) and a few
  pieces of React state. The embedding below follows the source function by function:
  \<^item> JavaScript numbers that hold coordinates, times and speeds are \<open>real\<close> (rounding of
    IEEE doubles is not modelled); numbers that only ever hold integers (ammo, score, wave
    and spawn counters: integer literals changed by \<open>+\<close>, \<open>-\<close>, \<open>*\<close> of integers) are \<open>int\<close>;
  \<^item> \<^verbatim>\<open>Math.random()\<close> reads the next element of a stream \<open>rnd\<close> of the environment, the
    position in the stream being part of the state (\<open>rng\<close>); \<^verbatim>\<open>Date.now()\<close> is the
    environment's \<open>now\<close>, taken constant over one callback;
  \<^item> mutation is explicit state passing; \<^verbatim>\<open>array.forEach(callback)\<close> is \<open>forEach\<close>, whose
    callback returns the mutated element and the mutated rest of the state;
  \<^item> \<^verbatim>\<open>setGameState\<close> appends to a queue of pending updates, which \<open>render\<close> applies after
    the callback has run (the last one wins), while the callback itself keeps reading the
    value of \<open>gameState\<close> it was created with;
  \<^item> \<^verbatim>\<open>setTimeout\<close> of the wave-complete branch increments a counter of pending timers;
  \<^item> indexing past the end of \<^verbatim>\<open>targets\<close> (a \<^verbatim>\<open>TypeError\<close> in JavaScript) is \<open>None\<close>.
  Drawing (\<^verbatim>\<open>draw\<close>) only reads the state and is not modelled.
\<close>

subsection \<open>Types and constants\<close>

record point =
  x :: real
  y :: real

record gameObject = point +
  id' :: real
  active :: bool

record tower = gameObject +
  ammo :: int
  maxAmmo :: int
  color :: string

record city = gameObject +
  color :: string

record missile = gameObject +
  startX :: real
  startY :: real
  targetX :: real
  targetY :: real
  speed :: real
  progress :: real
  color :: string
  trail :: "point list"

record explosion = gameObject +
  radius :: real
  maxRadius :: real
  duration :: real
  age :: real
  color :: string

datatype gstate = Start | Playing | Victory | Defeat | Wave_complete

definition GAME_WIDTH :: real where "GAME_WIDTH = 800"
definition GAME_HEIGHT :: real where "GAME_HEIGHT = 600"
definition GROUND_HEIGHT :: real where "GROUND_HEIGHT = 40"
definition WIN_SCORE :: int where "WIN_SCORE = 1000"
definition AMMO_BONUS :: int where "AMMO_BONUS = 5"

definition distance :: "'a point_scheme \<Rightarrow> 'b point_scheme \<Rightarrow> real" where
  "distance p1 p2 = sqrt ((x p2 - x p1)\<^sup>2 + (y p2 - y p1)\<^sup>2)"

text \<open>
  The mutable game state (\<^verbatim>\<open>state.current\<close>, fields \<open>towers\<close> to \<open>enemySpeedMultiplier\<close>), the
  React state of the component (\<open>gameState\<close>, \<open>uiScore\<close>, \<open>uiWave\<close>, \<open>waveMessage\<close>; the
  language switch is presentation only), the queue of \<^verbatim>\<open>setGameState\<close> calls not yet
  rendered, the number of wave-complete timers not yet fired, and the number of
  \<^verbatim>\<open>Math.random()\<close> calls made so far.
\<close>

record world =
  towers :: "tower list"
  cities :: "city list"
  playerMissiles :: "missile list"
  enemyMissiles :: "missile list"
  explosions :: "explosion list"
  lastTime :: real
  spawnTimer :: real
  spawnInterval :: real
  score :: int
  wave :: int
  enemiesToSpawn :: int
  enemiesSpawned :: int
  enemySpeedMultiplier :: real
  gameState :: gstate
  uiScore :: int
  uiWave :: int
  waveMessage :: string
  pendingGameState :: "gstate list"
  timers :: nat
  rng :: nat

record env =
  rnd :: "nat \<Rightarrow> real"
  now :: real

definition initial :: world where
  "initial = \<lparr>towers = [], cities = [], playerMissiles = [], enemyMissiles = [],
     explosions = [], lastTime = 0, spawnTimer = 0, spawnInterval = 2000, score = 0,
     wave = 1, enemiesToSpawn = 10, enemiesSpawned = 0, enemySpeedMultiplier = 1,
     gameState = Start, uiScore = 0, uiWave = 1, waveMessage = [],
     pendingGameState = [], timers = 0, rng = 0\<rparr>"

subsection \<open>Effects\<close>

definition random :: "env \<Rightarrow> world \<Rightarrow> real \<times> world" where
  "random c w = (rnd c (rng w), w\<lparr>rng := Suc (rng w)\<rparr>)"

definition setGameState :: "gstate \<Rightarrow> world \<Rightarrow> world" where
  "setGameState g w = w\<lparr>pendingGameState := pendingGameState w @ [g]\<rparr>"

definition render :: "world \<Rightarrow> world" where
  "render w = (if pendingGameState w = [] then w
     else w\<lparr>gameState := last (pendingGameState w), pendingGameState := []\<rparr>)"

fun forEach :: "('a \<Rightarrow> 's \<Rightarrow> 'a \<times> 's) \<Rightarrow> 'a list \<Rightarrow> 's \<Rightarrow> 'a list \<times> 's" where
  "forEach f [] s = ([], s)"
| "forEach f (a # as) s =
     (let (a', s') = f a s; (as', s'') = forEach f as s' in (a' # as', s''))"

text \<open>The decimal text of an integer, as a template literal prints it.\<close>

fun digits :: "nat \<Rightarrow> string" where
  "digits n = (if n < 10 then [''0123456789'' ! n]
     else digits (n div 10) @ [''0123456789'' ! (n mod 10)])"

definition toString :: "int \<Rightarrow> string" where
  "toString i = (if i < 0 then CHR ''-'' # digits (nat (- i)) else digits (nat i))"

subsection \<open>Initialization\<close>

definition initGame :: "bool \<Rightarrow> world \<Rightarrow> world" where
  "initGame resetScore w =
    (let s = (if resetScore
              then w\<lparr>score := 0, wave := 1, enemySpeedMultiplier := 1, enemiesToSpawn := 10,
                     uiScore := 0, uiWave := 1\<rparr>
              else w);
         cityY = GAME_HEIGHT - GROUND_HEIGHT + 15;
         towerY = GAME_HEIGHT - GROUND_HEIGHT + 10
     in setGameState Playing
       (s\<lparr>towers :=
            [\<lparr>x = GAME_WIDTH * 0.1, y = towerY, id' = 1, active = True,
              ammo = 20, maxAmmo = 20, tower.color = ''#60a5fa''\<rparr>,
             \<lparr>x = GAME_WIDTH * 0.5, y = towerY, id' = 2, active = True,
              ammo = 40, maxAmmo = 40, tower.color = ''#60a5fa''\<rparr>,
             \<lparr>x = GAME_WIDTH * 0.9, y = towerY, id' = 3, active = True,
              ammo = 20, maxAmmo = 20, tower.color = ''#60a5fa''\<rparr>],
          cities :=
            [\<lparr>x = GAME_WIDTH * 0.2, y = cityY, id' = 1, active = True,
              city.color = ''#34d399''\<rparr>,
             \<lparr>x = GAME_WIDTH * 0.3, y = cityY, id' = 2, active = True,
              city.color = ''#34d399''\<rparr>,
             \<lparr>x = GAME_WIDTH * 0.4, y = cityY, id' = 3, active = True,
              city.color = ''#34d399''\<rparr>,
             \<lparr>x = GAME_WIDTH * 0.6, y = cityY, id' = 4, active = True,
              city.color = ''#34d399''\<rparr>,
             \<lparr>x = GAME_WIDTH * 0.7, y = cityY, id' = 5, active = True,
              city.color = ''#34d399''\<rparr>,
             \<lparr>x = GAME_WIDTH * 0.8, y = cityY, id' = 6, active = True,
              city.color = ''#34d399''\<rparr>],
          playerMissiles := [],
          enemyMissiles := [],
          explosions := [],
          spawnTimer := 0,
          enemiesSpawned := 0,
          spawnInterval := real_of_int (max 500 (2500 - wave s * 200))\<rparr>))"

definition startNextWave :: "world \<Rightarrow> world" where
  "startNextWave w =
    (let s = w\<lparr>wave := wave w + 1,
               enemySpeedMultiplier := enemySpeedMultiplier w + 0.15\<rparr>;
         s = s\<lparr>enemiesToSpawn := 10 + wave s * 2,
               enemiesSpawned := 0,
               spawnInterval := real_of_int (max 400 (2500 - wave s * 150))\<rparr>;
         s = s\<lparr>towers := map (\<lambda>t. if active t then t\<lparr>ammo := maxAmmo t\<rparr> else t) (towers s)\<rparr>;
         s = s\<lparr>playerMissiles := [], enemyMissiles := [], explosions := []\<rparr>
     in setGameState Playing (s\<lparr>uiWave := wave s\<rparr>))"

text \<open>The callback of the timer set when a wave completes (3000 ms later).\<close>

definition waveTimeout :: "world \<Rightarrow> world" where
  "waveTimeout w =
    (let s = w\<lparr>timers := timers w - 1\<rparr>
     in if score s \<ge> WIN_SCORE then setGameState Victory s else startNextWave s)"

subsection \<open>The game loop\<close>

text \<open>
  Step 1 of \<^verbatim>\<open>update\<close>. \<open>pickTarget\<close> is the target choice of a new enemy missile: with
  at least one active structure and a draw below 0.7, a structure picked by a second draw;
  otherwise the default ground target.
\<close>

definition asObject :: "'a gameObject_scheme \<Rightarrow> gameObject" where
  "asObject t = \<lparr>x = x t, y = y t, id' = id' t, active = active t\<rparr>"

definition pickTarget ::
  "env \<Rightarrow> real \<times> real \<Rightarrow> gameObject list \<Rightarrow> world \<Rightarrow> ((real \<times> real) \<times> world) option" where
  "pickTarget c ground targets w =
    (if length targets > 0 then
       (let (r, w1) = random c w in
        if r < 0.7 then
          (let (r', w2) = random c w1;
               i = \<lfloor>r' * real (length targets)\<rfloor>
           in if 0 \<le> i \<and> i < int (length targets)
              then Some ((x (targets ! nat i), y (targets ! nat i)), w2)
              else None)
        else Some (ground, w1))
     else Some (ground, w))"

definition spawnEnemy :: "env \<Rightarrow> world \<Rightarrow> world option" where
  "spawnEnemy c w =
    (let s = w\<lparr>spawnTimer := 0, enemiesSpawned := enemiesSpawned w + 1\<rparr>;
         (r0, s) = random c s;
         sx = r0 * GAME_WIDTH;
         (r1, s) = random c s;
         targets = filter active (map asObject (cities s) @ map asObject (towers s))
     in case pickTarget c (r1 * GAME_WIDTH, GAME_HEIGHT - GROUND_HEIGHT) targets s of
          None \<Rightarrow> None
        | Some ((tx, ty), s) \<Rightarrow>
           (let (r2, s) = random c s;
                (r3, s) = random c s
            in Some (s\<lparr>enemyMissiles := enemyMissiles s @
                 [\<lparr>x = sx, y = 0, id' = now c + r2, active = True,
                   startX = sx, startY = 0, targetX = tx, targetY = ty,
                   speed = (0.03 + r3 * 0.02) * enemySpeedMultiplier s, progress = 0,
                   missile.color = ''#ef4444'', trail = []\<rparr>]\<rparr>)))"

definition ammoBonus :: "tower list \<Rightarrow> int" where
  "ammoBonus ts = fold (\<lambda>t bonus. if active t then bonus + ammo t * AMMO_BONUS else bonus) ts 0"

definition waveComplete :: "world \<Rightarrow> world" where
  "waveComplete w =
    (let bonus = ammoBonus (towers w);
         s = w\<lparr>score := score w + bonus\<rparr>;
         s = s\<lparr>uiScore := score s, waveMessage := ''+'' @ toString bonus @ '' Pts''\<rparr>;
         s = setGameState Wave_complete s
     in s\<lparr>timers := Suc (timers s)\<rparr>)"

definition spawnEnemies :: "real \<Rightarrow> env \<Rightarrow> world \<Rightarrow> world option" where
  "spawnEnemies dt c w =
    (if enemiesSpawned w < enemiesToSpawn w then
       (let s = w\<lparr>spawnTimer := spawnTimer w + dt\<rparr>
        in if spawnTimer s > spawnInterval s then spawnEnemy c s else Some s)
     else if length (enemyMissiles w) = 0 \<and> length (explosions w) = 0 then Some (waveComplete w)
     else Some w)"

text \<open>Step 2: player missiles. \<open>pushTrail\<close> appends a point and drops the oldest past the cap.\<close>

definition pushTrail :: "nat \<Rightarrow> point \<Rightarrow> point list \<Rightarrow> point list" where
  "pushTrail cap p tr = (let tr' = tr @ [p] in if length tr' > cap then tl tr' else tr')"

definition updatePlayerMissile :: "real \<Rightarrow> env \<Rightarrow> missile \<Rightarrow> world \<Rightarrow> missile \<times> world" where
  "updatePlayerMissile dt c m w =
    (if \<not> active m then (m, w)
     else
      (let m = m\<lparr>progress := progress m + speed m * dt\<rparr>;
           (m, w) =
             (if progress m < 1 then
                (let (r, w) = random c w
                 in if r > 0.5 then (m\<lparr>trail := pushTrail 10 \<lparr>x = x m, y = y m\<rparr> (trail m)\<rparr>, w)
                    else (m, w))
              else (m, w))
       in if progress m \<ge> 1 then
            (let m = m\<lparr>active := False\<rparr>;
                 (r, w) = random c w
             in (m, w\<lparr>explosions := explosions w @
                  [\<lparr>x = targetX m, y = targetY m, id' = now c + r, active = True,
                    radius = 0, maxRadius = 70, duration = 1200, age = 0,
                    explosion.color = ''#ffffff''\<rparr>]\<rparr>))
          else
            (let m = m\<lparr>x := startX m + (targetX m - startX m) * progress m\<rparr>;
                 m = m\<lparr>y := startY m + (targetY m - startY m) * progress m\<rparr>
             in (m, w))))"

definition updatePlayerMissiles :: "real \<Rightarrow> env \<Rightarrow> world \<Rightarrow> world" where
  "updatePlayerMissiles dt c w =
    (let (ms, s) = forEach (updatePlayerMissile dt c) (playerMissiles w) w
     in s\<lparr>playerMissiles := ms\<rparr>)"

text \<open>
  Step 3: enemy missiles. \<open>checkDestruction\<close> is the callback run on every city and then on
  every tower when the missile \<open>m\<close> has landed, \<open>destroyStructures\<close> the loop that runs it
  (over the array of the cities followed by the towers).
\<close>

definition checkDestruction ::
  "missile \<Rightarrow> env \<Rightarrow> 'a gameObject_scheme \<Rightarrow> world \<Rightarrow> 'a gameObject_scheme \<times> world" where
  "checkDestruction m c structure w =
    (if active structure \<and> distance m structure < 35 then
       (let structure = structure\<lparr>active := False\<rparr>;
            (r, w) = random c w
        in (structure, w\<lparr>explosions := explosions w @
             [\<lparr>x = x structure, y = y structure, id' = now c + r, active = True,
               radius = 0, maxRadius = 50, duration = 1000, age = 0,
               explosion.color = ''#ef4444''\<rparr>]\<rparr>))
     else (structure, w))"

definition destroyStructures :: "missile \<Rightarrow> env \<Rightarrow> world \<Rightarrow> world" where
  "destroyStructures m c w =
    (let (cs, w) = forEach (checkDestruction m c) (cities w) w;
         w = w\<lparr>cities := cs\<rparr>;
         (ts, w) = forEach (checkDestruction m c) (towers w) w
     in w\<lparr>towers := ts\<rparr>)"

definition updateEnemyMissile :: "real \<Rightarrow> env \<Rightarrow> missile \<Rightarrow> world \<Rightarrow> missile \<times> world" where
  "updateEnemyMissile dt c m w =
    (if \<not> active m then (m, w)
     else
      (let m = m\<lparr>progress := progress m + speed m * dt * 0.005\<rparr>;
           m = m\<lparr>x := startX m + (targetX m - startX m) * progress m\<rparr>;
           m = m\<lparr>y := startY m + (targetY m - startY m) * progress m\<rparr>;
           (r, w) = random c w;
           m = (if r > 0.7 then m\<lparr>trail := pushTrail 5 \<lparr>x = x m, y = y m\<rparr> (trail m)\<rparr> else m)
       in if progress m \<ge> 1 then
            (let m = m\<lparr>active := False\<rparr>;
                 (r, w) = random c w;
                 w = w\<lparr>explosions := explosions w @
                   [\<lparr>x = x m, y = y m, id' = now c + r, active = True,
                     radius = 0, maxRadius = 40, duration = 800, age = 0,
                     explosion.color = ''#f59e0b''\<rparr>]\<rparr>
             in (m, destroyStructures m c w))
          else (m, w)))"

definition updateEnemyMissiles :: "real \<Rightarrow> env \<Rightarrow> world \<Rightarrow> world" where
  "updateEnemyMissiles dt c w =
    (let (ms, s) = forEach (updateEnemyMissile dt c) (enemyMissiles w) w
     in s\<lparr>enemyMissiles := ms\<rparr>)"

text \<open>
  Step 4: explosions and collisions. \<open>blastRadius\<close> is the radius the callback assigns to an
  explosion of the given duration and maximal radius at the given age; \<open>collide\<close> is the inner
  callback, run on every enemy missile for the explosion \<open>e\<close>. Explosions pushed while the
  outer \<^verbatim>\<open>forEach\<close> runs lie past the range it visits: they are appended, untouched, after
  the visited ones.
\<close>

definition blastRadius :: "real \<Rightarrow> real \<Rightarrow> real \<Rightarrow> real" where
  "blastRadius dur maxR a =
    (let halfLife = dur / 2
     in if a < halfLife then (a / halfLife) * maxR
        else (1 - (a - halfLife) / halfLife) * maxR)"

definition collide :: "explosion \<Rightarrow> env \<Rightarrow> missile \<Rightarrow> world \<Rightarrow> missile \<times> world" where
  "collide e c m w =
    (if active m \<and> distance m e < radius e then
       (let m = m\<lparr>active := False\<rparr>;
            w = w\<lparr>score := score w + 20\<rparr>;
            w = w\<lparr>uiScore := score w\<rparr>;
            (r, w) = random c w
        in (m, w\<lparr>explosions := explosions w @
             [\<lparr>x = x m, y = y m, id' = now c + r, active = True,
               radius = 0, maxRadius = 30, duration = 600, age = 0,
               explosion.color = ''#fbbf24''\<rparr>]\<rparr>))
     else (m, w))"

definition updateExplosion :: "real \<Rightarrow> env \<Rightarrow> explosion \<Rightarrow> world \<Rightarrow> explosion \<times> world" where
  "updateExplosion dt c e w =
    (if \<not> active e then (e, w)
     else
      (let e = e\<lparr>age := age e + dt\<rparr>
       in if age e > duration e then (e\<lparr>active := False\<rparr>, w)
          else
           (let e = e\<lparr>radius := blastRadius (duration e) (maxRadius e) (age e)\<rparr>;
                (ms, w) = forEach (collide e c) (enemyMissiles w) w
            in (e, w\<lparr>enemyMissiles := ms\<rparr>))))"

definition updateExplosions :: "real \<Rightarrow> env \<Rightarrow> world \<Rightarrow> world" where
  "updateExplosions dt c w =
    (let (es, s) = forEach (updateExplosion dt c) (explosions w) w
     in s\<lparr>explosions := es @ drop (length (explosions w)) (explosions s)\<rparr>)"

text \<open>Steps 5 and 6. \<open>gs\<close> is the value of \<open>gameState\<close> the callback was created with.\<close>

definition cleanup :: "world \<Rightarrow> world" where
  "cleanup w = w\<lparr>playerMissiles := filter active (playerMissiles w),
                 enemyMissiles := filter active (enemyMissiles w),
                 explosions := filter active (explosions w)\<rparr>"

definition checkEndGame :: "gstate \<Rightarrow> world \<Rightarrow> world" where
  "checkEndGame gs w =
    (let activeTowers = length (filter active (towers w))
     in if activeTowers = 0 then setGameState Defeat w
        else if score w \<ge> WIN_SCORE \<and> gs = Playing then setGameState Victory w
        else w)"

text \<open>
  \<open>motion\<close> is steps 2 to 5 in their order; \<open>tick\<close> is the body of \<^verbatim>\<open>update\<close> past its
  early return, for the elapsed time \<open>dt\<close>; \<open>update\<close> is the whole callback.
\<close>

definition motion :: "real \<Rightarrow> env \<Rightarrow> world \<Rightarrow> world" where
  "motion dt c w =
    cleanup (updateExplosions dt c (updateEnemyMissiles dt c (updatePlayerMissiles dt c w)))"

definition tick :: "real \<Rightarrow> env \<Rightarrow> world \<Rightarrow> world option" where
  "tick dt c w =
    (case spawnEnemies dt c w of
       None \<Rightarrow> None
     | Some s \<Rightarrow> Some (checkEndGame (gameState w) (motion dt c s)))"

definition update :: "real \<Rightarrow> env \<Rightarrow> world \<Rightarrow> world option" where
  "update time c w =
    (let s = (if lastTime w = 0 then w\<lparr>lastTime := time\<rparr> else w);
         dt = time - lastTime s;
         s = s\<lparr>lastTime := time\<rparr>
     in if gameState s \<noteq> Playing then Some s else tick dt c s)"

subsection \<open>Input\<close>

text \<open>
  \<open>closestTower\<close> is the search loop of \<^verbatim>\<open>handleInput\<close>: the accumulator is the index of
  \<^verbatim>\<open>bestTower\<close> with \<^verbatim>\<open>minDist\<close>, \<open>None\<close> standing for \<^verbatim>\<open>null\<close> and \<^verbatim>\<open>Infinity\<close>. \<open>fire\<close> is
  \<^verbatim>\<open>handleInput\<close> from the ground check on, for a target \<open>(tx, ty)\<close> in game coordinates
  (\<^verbatim>\<open>targetX\<close>, \<^verbatim>\<open>targetY\<close> in the source; \<open>sx\<close> below is its \<^verbatim>\<open>startX\<close>). The canvas is
  its bounding rectangle, \<open>None\<close> when the canvas is not mounted; \<open>clientX\<close> and \<open>clientY\<close> are
  those of the mouse event or of the first touch. For a rectangle of zero width or height
  the scale is infinite in JavaScript and the target has an infinite or undefined
  coordinate, so that every comparison that could accept the target and select a tower
  fails: the call changes nothing.
\<close>

record rect =
  left' :: real
  top' :: real
  width' :: real
  height' :: real

fun closestTower ::
  "point \<Rightarrow> tower list \<Rightarrow> nat \<Rightarrow> (nat \<times> real) option \<Rightarrow> (nat \<times> real) option" where
  "closestTower p [] i best = best"
| "closestTower p (t # ts) i best =
     closestTower p ts (Suc i)
       (if active t \<and> ammo t > 0 then
          (let d = distance \<lparr>x = x t, y = y t\<rparr> p
           in case best of
                None \<Rightarrow> Some (i, d)
              | Some (j, minDist) \<Rightarrow> if d < minDist then Some (i, d) else best)
        else best)"

definition fire :: "real \<Rightarrow> real \<Rightarrow> env \<Rightarrow> world \<Rightarrow> world" where
  "fire tx ty c w =
    (if ty > GAME_HEIGHT - GROUND_HEIGHT + 10 then w
     else
      (case closestTower \<lparr>x = tx, y = ty\<rparr> (towers w) 0 None of
         None \<Rightarrow> w
       | Some (i, minDist) \<Rightarrow>
          (let bestTower = (towers w ! i)\<lparr>ammo := ammo (towers w ! i) - 1\<rparr>
           in w\<lparr>towers := (towers w)[i := bestTower],
                playerMissiles := playerMissiles w @
                  [\<lparr>x = x bestTower, y = y bestTower - 30, id' = now c, active = True,
                    startX = x bestTower, startY = y bestTower - 30,
                    targetX = tx, targetY = ty,
                    speed = 0.02, progress = 0,
                    missile.color = ''#60a5fa'', trail = []\<rparr>]\<rparr>)))"

definition handleInput :: "rect option \<Rightarrow> real \<Rightarrow> real \<Rightarrow> env \<Rightarrow> world \<Rightarrow> world" where
  "handleInput canvas clientX clientY c w =
    (if gameState w \<noteq> Playing then w
     else
      (case canvas of
         None \<Rightarrow> w
       | Some r \<Rightarrow>
          if width' r = 0 \<or> height' r = 0 then w
          else
           (let scaleX = GAME_WIDTH / width' r;
                scaleY = GAME_HEIGHT / height' r;
                tx = (clientX - left' r) * scaleX;
                ty = (clientY - top' r) * scaleY
            in fire tx ty c w)))"

subsection \<open>Sessions\<close>

text \<open>
  The states a session can be in between two callbacks: the component starts in \<open>initial\<close>;
  an animation frame runs \<open>update\<close>; a click or touch on the canvas runs \<open>handleInput\<close>; a
  pending timer runs \<open>waveTimeout\<close>; the start and restart buttons, shown in the states
  \<open>Start\<close>, \<open>Victory\<close> and \<open>Defeat\<close>, run \<open>initGame\<close>. Queued state updates are rendered
  after each callback.
\<close>

inductive reachable :: "world \<Rightarrow> bool" where
  r_initial: "reachable initial"
| r_frame: "reachable w \<Longrightarrow> update time c w = Some w' \<Longrightarrow> reachable (render w')"
| r_input: "reachable w \<Longrightarrow> reachable (handleInput canvas clientX clientY c w)"
| r_timeout: "reachable w \<Longrightarrow> timers w > 0 \<Longrightarrow> reachable (render (waveTimeout w))"
| r_start: "reachable w \<Longrightarrow> gameState w \<in> {Start, Victory, Defeat} \<Longrightarrow>
     reachable (render (initGame True w))"

subsection \<open>Auxiliary notions\<close>

text \<open>
  What steps 2 to 5 of the loop leave alone: the queued state updates, the timers, the wave
  and its spawn counters; the score never decreases; towers keep their ammo and are never
  reactivated (\<open>towerRel\<close>).
\<close>

definition towerRel :: "tower \<Rightarrow> tower \<Rightarrow> bool" where
  "towerRel t t' \<longleftrightarrow> ammo t' = ammo t \<and> maxAmmo t' = maxAmmo t \<and> (active t' \<longrightarrow> active t)"

definition steady :: "world \<Rightarrow> world \<Rightarrow> bool" where
  "steady w w' \<longleftrightarrow>
     pendingGameState w' = pendingGameState w \<and> timers w' = timers w \<and>
     gameState w' = gameState w \<and> wave w' = wave w \<and>
     enemiesToSpawn w' = enemiesToSpawn w \<and> enemiesSpawned w' = enemiesSpawned w \<and>
     waveMessage w' = waveMessage w \<and> score w \<le> score w' \<and>
     list_all2 towerRel (towers w) (towers w')"

subsection \<open>Example data\<close>

text \<open>An environment whose random draws are all one half, and a session just started.\<close>

definition env0 :: env where
  "env0 = \<lparr>rnd = (\<lambda>k. 1 / 2), now = 1000\<rparr>"

definition session0 :: world where
  "session0 = render (initGame True initial)"

subsection \<open>Interception\<close>

text \<open>
  \<open>blasts dt e m\<close>: the explosion \<open>e\<close>, aged by \<open>dt\<close>, is still active and the missile \<open>m\<close> lies
  within its radius at that age. \<open>intercepted dt es m\<close>: the active missile \<open>m\<close> is within the
  current radius of one of the explosions \<open>es\<close>. \<open>anonymous\<close> forgets the identifier of an
  explosion; \<open>secondaryOf m\<close> is the secondary explosion at the position of \<open>m\<close>, its
  identifier aside.
\<close>

definition blasts :: "real \<Rightarrow> explosion \<Rightarrow> missile \<Rightarrow> bool" where
  "blasts dt e m \<longleftrightarrow> active e \<and> \<not> age e + dt > duration e \<and>
     distance m e < blastRadius (duration e) (maxRadius e) (age e + dt)"

definition intercepted :: "real \<Rightarrow> explosion list \<Rightarrow> missile \<Rightarrow> bool" where
  "intercepted dt es m \<longleftrightarrow> active m \<and> (\<exists>e\<in>set es. blasts dt e m)"

definition anonymous :: "explosion \<Rightarrow> explosion" where
  "anonymous e = e\<lparr>id' := 0\<rparr>"

definition secondaryOf :: "missile \<Rightarrow> explosion" where
  "secondaryOf m = \<lparr>x = x m, y = y m, id' = 0, active = True, radius = 0, maxRadius = 30,
     duration = 600, age = 0, explosion.color = ''#fbbf24''\<rparr>"

definition blastExample :: world where
  "blastExample = initial\<lparr>gameState := Playing,
     explosions := [\<lparr>x = 100, y = 100, id' = 7, active = True, radius = 29, maxRadius = 30,
       duration = 600, age = 290, explosion.color = ''#fbbf24''\<rparr>],
     enemyMissiles :=
       [\<lparr>x = 110, y = 100, id' = 8, active = True, startX = 110, startY = 0,
         targetX = 110, targetY = 560, speed = 1 / 25, progress = 5 / 28,
         missile.color = ''#ef4444'', trail = []\<rparr>,
        \<lparr>x = 300, y = 300, id' = 9, active = True, startX = 300, startY = 0,
         targetX = 300, targetY = 560, speed = 1 / 25, progress = 15 / 28,
         missile.color = ''#ef4444'', trail = []\<rparr>]\<rparr>"

subsection \<open>Impacts\<close>

text \<open>
  \<open>impactOf m\<close> and \<open>debrisOf s\<close>: the impact explosion at the position of the landed missile
  \<open>m\<close> and the debris explosion at the position of the structure \<open>s\<close>, identifiers aside.
\<close>

definition impactOf :: "missile \<Rightarrow> explosion" where
  "impactOf m = \<lparr>x = x m, y = y m, id' = 0, active = True, radius = 0, maxRadius = 40,
     duration = 800, age = 0, explosion.color = ''#f59e0b''\<rparr>"

definition debrisOf :: "'a gameObject_scheme \<Rightarrow> explosion" where
  "debrisOf s = \<lparr>x = x s, y = y s, id' = 0, active = True, radius = 0, maxRadius = 50,
     duration = 1000, age = 0, explosion.color = ''#ef4444''\<rparr>"

text \<open>
  A missile one step before landing at (100, 560) among three cities and two towers, and a
  missile that a frame of 16 ms carries past its target.
\<close>

definition landingMissile :: missile where
  "landingMissile = \<lparr>x = 100, y = 504, id' = 5, active = True, startX = 100, startY = 0,
     targetX = 100, targetY = 560, speed = 1 / 25, progress = 9 / 10,
     missile.color = ''#ef4444'', trail = []\<rparr>"

definition impactExample :: world where
  "impactExample = initial\<lparr>gameState := Playing,
     cities :=
       [\<lparr>x = 100, y = 575, id' = 1, active = True, city.color = ''#34d399''\<rparr>,
        \<lparr>x = 120, y = 575, id' = 2, active = True, city.color = ''#34d399''\<rparr>,
        \<lparr>x = 300, y = 575, id' = 3, active = True, city.color = ''#34d399''\<rparr>],
     towers :=
       [\<lparr>x = 80, y = 570, id' = 1, active = True, ammo = 20, maxAmmo = 20,
         tower.color = ''#60a5fa''\<rparr>,
        \<lparr>x = 400, y = 570, id' = 2, active = True, ammo = 40, maxAmmo = 40,
         tower.color = ''#60a5fa''\<rparr>]\<rparr>"

definition overshootMissile :: missile where
  "overshootMissile = \<lparr>x = 999 / 10, y = 55944 / 100, id' = 6, active = True,
     startX = 0, startY = 0, targetX = 100, targetY = 560, speed = 1 / 25,
     progress = 999 / 1000, missile.color = ''#ef4444'', trail = []\<rparr>"

subsection \<open>Well-formed states\<close>

text \<open>
  What holds of the state between two callbacks of a session (see \<open>reachable_wellFormed\<close>):
  the ammo of every tower is between 0 and its maximum; no more enemies were spawned than the
  wave has to spawn; the wave number is at least 1; the missiles and explosions listed are
  all active (the inactive ones were removed at the end of the tick); and no state update
  is waiting to be rendered.
\<close>

definition wellFormed :: "world \<Rightarrow> bool" where
  "wellFormed w \<longleftrightarrow>
     (\<forall>t\<in>set (towers w). 0 \<le> ammo t \<and> ammo t \<le> maxAmmo t) \<and>
     enemiesSpawned w \<le> enemiesToSpawn w \<and> 1 \<le> wave w \<and>
     (\<forall>m\<in>set (playerMissiles w). active m) \<and>
     (\<forall>m\<in>set (enemyMissiles w). active m) \<and>
     (\<forall>e\<in>set (explosions w). active e) \<and>
     pendingGameState w = []"

subsection \<open>The order of the phases as the specification words it\<close>

text \<open>
  For comparison with \<open>tick\<close>: the same steps in the order ``spawning and motion/collision
  updates first, then the wave-complete check, then the defeat/victory check''.
  \<open>spawnOnly\<close> is the spawning branch of step 1 alone, \<open>waveCheck\<close> its wave-complete branch
  alone.
\<close>

definition spawnOnly :: "real \<Rightarrow> env \<Rightarrow> world \<Rightarrow> world option" where
  "spawnOnly dt c w =
    (if enemiesSpawned w < enemiesToSpawn w then
       (let s = w\<lparr>spawnTimer := spawnTimer w + dt\<rparr>
        in if spawnTimer s > spawnInterval s then spawnEnemy c s else Some s)
     else Some w)"

definition waveCheck :: "world \<Rightarrow> world" where
  "waveCheck w =
    (if \<not> enemiesSpawned w < enemiesToSpawn w \<and>
        length (enemyMissiles w) = 0 \<and> length (explosions w) = 0
     then waveComplete w else w)"

definition tickAsWorded :: "real \<Rightarrow> env \<Rightarrow> world \<Rightarrow> world option" where
  "tickAsWorded dt c w =
    (case spawnOnly dt c w of
       None \<Rightarrow> None
     | Some s \<Rightarrow> Some (checkEndGame (gameState w) (waveCheck (motion dt c s))))"

text \<open>
  Two states of a wave whose ten enemies have all been spawned and resolved. In
  \<open>waveExample\<close> three active towers hold 5, 10 and 0 rounds and the score is 930. In
  \<open>raceExample\<close> a player missile is about to reach its target.
\<close>

definition waveExample :: world where
  "waveExample = initial\<lparr>gameState := Playing, lastTime := 1000, enemiesSpawned := 10,
     score := 930,
     towers :=
       [\<lparr>x = 80, y = 570, id' = 1, active = True, ammo = 5, maxAmmo = 20,
         tower.color = ''#60a5fa''\<rparr>,
        \<lparr>x = 400, y = 570, id' = 2, active = True, ammo = 10, maxAmmo = 40,
         tower.color = ''#60a5fa''\<rparr>,
        \<lparr>x = 720, y = 570, id' = 3, active = True, ammo = 0, maxAmmo = 20,
         tower.color = ''#60a5fa''\<rparr>]\<rparr>"

definition raceExample :: world where
  "raceExample = initial\<lparr>gameState := Playing, lastTime := 1000, enemiesSpawned := 10,
     towers :=
       [\<lparr>x = 400, y = 570, id' = 2, active = True, ammo = 3, maxAmmo = 40,
         tower.color = ''#60a5fa''\<rparr>],
     playerMissiles :=
       [\<lparr>x = 400, y = 324, id' = 4, active = True, startX = 400, startY = 540,
         targetX = 400, targetY = 300, speed = 1 / 50, progress = 9 / 10,
         missile.color = ''#60a5fa'', trail = []\<rparr>]\<rparr>"

subsection \<open>The interceptions of a tick\<close>

text \<open>
  \<open>elapsed time w\<close> is the elapsed time \<^verbatim>\<open>dt\<close> that \<open>update\<close> computes when called at \<open>time\<close>
  in the state \<open>w\<close>. \<open>interceptions dt c s\<close> is the number of enemy missiles intercepted in a
  tick whose step 1 left the state \<open>s\<close>: the missiles that, when step 4 starts (after the
  player and the enemy missiles have moved), are active and within the current radius of an
  explosion.
\<close>

definition elapsed :: "real \<Rightarrow> world \<Rightarrow> real" where
  "elapsed time w = time - (if lastTime w = 0 then time else lastTime w)"

definition interceptions :: "real \<Rightarrow> env \<Rightarrow> world \<Rightarrow> nat" where
  "interceptions dt c s =
    (let b = updateEnemyMissiles dt c (updatePlayerMissiles dt c s)
     in length (filter (intercepted dt (explosions b)) (enemyMissiles b)))"

text \<open>
  A playing state with one tower, a blast about to reach its full radius and two enemy
  missiles, one of them 10 away from the centre of the blast; and an enemy missile aimed at
  the first tower of a fresh session, (80, 570), one long frame before landing.
\<close>

definition volleyExample :: world where
  "volleyExample = blastExample\<lparr>lastTime := 1000, score := 100,
     towers :=
       [\<lparr>x = 400, y = 570, id' = 2, active = True, ammo = 3, maxAmmo = 40,
         tower.color = ''#60a5fa''\<rparr>]\<rparr>"

definition longFrameMissile :: missile where
  "longFrameMissile = \<lparr>x = 80, y = 513, id' = 7, active = True, startX = 80, startY = 0,
     targetX = 80, targetY = 570, speed = 1 / 25, progress = 9 / 10,
     missile.color = ''#ef4444'', trail = []\<rparr>"

section \<open>Properties\<close>

subsection \<open>Loops\<close>

lemma forEach_Cons:
  "forEach f (a # as) s =
     (fst (f a s) # fst (forEach f as (snd (f a s))), snd (forEach f as (snd (f a s))))"
  by (simp add: case_prod_beta)

lemma forEach_length: "length (fst (forEach f xs s)) = length xs"
  by (induction xs arbitrary: s) (simp_all add: forEach_Cons del: forEach.simps(2))

declare forEach.simps(2) [simp del]

declare forEach_Cons [simp]

lemma forEach_world_rel:
  assumes step: "\<And>a s. R s (snd (f a s))"
    and refl: "\<And>s. R s s"
    and trans: "\<And>s t u. R s t \<Longrightarrow> R t u \<Longrightarrow> R s u"
  shows "R s (snd (forEach f xs s))"
proof (induction xs arbitrary: s)
  case Nil
  show ?case by (simp add: refl)
next
  case (Cons a as)
  have "R s (snd (f a s))" by (rule step)
  moreover have "R (snd (f a s)) (snd (forEach f as (snd (f a s))))" by (rule Cons.IH)
  ultimately have "R s (snd (forEach f as (snd (f a s))))" by (rule trans)
  then show ?case by simp
qed

lemma forEach_elems:
  assumes "\<And>a s. Q a (fst (f a s))"
  shows "list_all2 Q xs (fst (forEach f xs s))"
proof (induction xs arbitrary: s)
  case Nil
  show ?case by simp
next
  case (Cons a as)
  have "Q a (fst (f a s))" by (rule assms)
  moreover have "list_all2 Q as (fst (forEach f as (snd (f a s))))" by (rule Cons.IH)
  ultimately show ?case by simp
qed

lemma forEach_map:
  assumes "\<And>a s. fst (f a s) = g a"
  shows "fst (forEach f xs s) = map g xs"
proof (induction xs arbitrary: s)
  case Nil
  show ?case by simp
next
  case (Cons a as)
  have "fst (f a s) = g a" by (rule assms)
  moreover have "fst (forEach f as (snd (f a s))) = map g as" by (rule Cons.IH)
  ultimately show ?case by simp
qed

subsection \<open>What the motion and collision steps preserve\<close>

lemma towerRel_refl: "list_all2 towerRel ts ts"
  by (simp add: list_all2_refl towerRel_def)

lemma towerRel_trans:
  "list_all2 towerRel ts us \<Longrightarrow> list_all2 towerRel us vs \<Longrightarrow> list_all2 towerRel ts vs"
  by (rule list_all2_trans[of towerRel towerRel towerRel]) (auto simp: towerRel_def)

lemma steady_refl: "steady w w"
  by (simp add: steady_def towerRel_refl)

lemma steady_trans: "steady w w' \<Longrightarrow> steady w' w'' \<Longrightarrow> steady w w''"
  unfolding steady_def by (auto intro: towerRel_trans)

lemma steady_random: "steady w (snd (random c w))"
  by (simp add: random_def steady_def towerRel_refl)

lemma steady_updatePlayerMissile: "steady w (snd (updatePlayerMissile dt c m w))"
  by (simp add: updatePlayerMissile_def random_def steady_def towerRel_refl Let_def split: prod.splits)

lemma steady_updatePlayerMissiles: "steady w (updatePlayerMissiles dt c w)"
proof -
  have "steady w (snd (forEach (updatePlayerMissile dt c) (playerMissiles w) w))"
    by (rule forEach_world_rel[where R = steady]) (auto intro: steady_updatePlayerMissile steady_refl steady_trans)
  then show ?thesis
    by (simp add: updatePlayerMissiles_def steady_def case_prod_beta)
qed

lemma checkDestruction_world:
  "steady w (snd (checkDestruction m c st w)) \<and> towers (snd (checkDestruction m c st w)) = towers w"
  by (simp add: checkDestruction_def random_def steady_def towerRel_refl Let_def split: prod.splits)

lemma checkDestruction_tower: "towerRel t (fst (checkDestruction m c t w))"
  by (simp add: checkDestruction_def random_def towerRel_def Let_def split: prod.splits)


lemma forEach_checkDestruction_world:
  "steady w (snd (forEach (checkDestruction m c) sts w)) \<and>
   towers (snd (forEach (checkDestruction m c) sts w)) = towers w"
  by (rule forEach_world_rel[where R = "\<lambda>s s'. steady s s' \<and> towers s' = towers s"])
     (auto intro: steady_refl steady_trans simp: checkDestruction_world)

lemma steady_destroyStructures: "steady w (destroyStructures m c w)"
proof -
  define w1 where "w1 = snd (forEach (checkDestruction m c) (cities w) w)"
  define w2 where "w2 = w1\<lparr>cities := fst (forEach (checkDestruction m c) (cities w) w)\<rparr>"
  define w3 where "w3 = snd (forEach (checkDestruction m c) (towers w2) w2)"
  define ts where "ts = fst (forEach (checkDestruction m c) (towers w2) w2)"
  have r: "destroyStructures m c w = w3\<lparr>towers := ts\<rparr>"
    by (simp add: destroyStructures_def case_prod_beta w1_def w2_def w3_def ts_def Let_def)
  have s1: "steady w w1" "towers w1 = towers w"
    using forEach_checkDestruction_world[of w m c "cities w"] by (simp_all add: w1_def)
  have s2: "steady w w2" "towers w2 = towers w"
    using s1 by (simp_all add: w2_def steady_def)
  have s3: "steady w2 w3"
    using forEach_checkDestruction_world[of w2 m c "towers w2"] by (simp add: w3_def)
  have t: "list_all2 towerRel (towers w2) ts"
    unfolding ts_def by (rule forEach_elems) (rule checkDestruction_tower)
  have "steady w2 (w3\<lparr>towers := ts\<rparr>)"
    using s3 t by (simp add: steady_def)
  with s2(1) show ?thesis unfolding r by (rule steady_trans)
qed

lemma steady_updateEnemyMissile: "steady w (snd (updateEnemyMissile dt c m w))"
proof -
  have b: "steady w (w\<lparr>rng := k, explosions := es\<rparr>)" for k es
    by (simp add: steady_def towerRel_refl)
  have a: "steady w (destroyStructures m' c (w\<lparr>rng := k, explosions := es\<rparr>))" for m' k es
    by (rule steady_trans[OF b steady_destroyStructures])
  have c: "steady w (w\<lparr>rng := k\<rparr>)" for k
    by (simp add: steady_def towerRel_refl)
  show ?thesis
    by (simp add: updateEnemyMissile_def Let_def case_prod_beta random_def steady_refl a c)
qed

lemma steady_updateEnemyMissiles: "steady w (updateEnemyMissiles dt c w)"
proof -
  have "steady w (snd (forEach (updateEnemyMissile dt c) (enemyMissiles w) w))"
    by (rule forEach_world_rel[where R = steady])
       (auto intro: steady_updateEnemyMissile steady_refl steady_trans)
  then show ?thesis
    by (simp add: updateEnemyMissiles_def steady_def case_prod_beta)
qed

lemma steady_collide: "steady w (snd (collide e c m w))"
  by (simp add: collide_def random_def steady_def towerRel_refl Let_def case_prod_beta)

lemma steady_forEach_collide: "steady w (snd (forEach (collide e c) ms w))"
  by (rule forEach_world_rel[where R = steady])
     (auto intro: steady_collide steady_refl steady_trans)

lemma steady_updateExplosion: "steady w (snd (updateExplosion dt c e w))"
proof -
  have a: "steady w ((snd (forEach (collide e' c) ms w))\<lparr>enemyMissiles := ms'\<rparr>)" for e' ms ms'
    using steady_forEach_collide[of w e' c ms] by (simp add: steady_def)
  show ?thesis
    by (simp add: updateExplosion_def Let_def case_prod_beta steady_refl a)
qed

lemma steady_updateExplosions: "steady w (updateExplosions dt c w)"
proof -
  have "steady w (snd (forEach (updateExplosion dt c) (explosions w) w))"
    by (rule forEach_world_rel[where R = steady])
       (auto intro: steady_updateExplosion steady_refl steady_trans)
  then show ?thesis
    by (simp add: updateExplosions_def steady_def case_prod_beta)
qed

lemma steady_cleanup: "steady w (cleanup w)"
  by (simp add: cleanup_def steady_def towerRel_refl)

lemma steady_motion: "steady w (motion dt c w)"
  unfolding motion_def
  by (rule steady_trans[OF steady_trans[OF steady_trans[OF steady_updatePlayerMissiles
      steady_updateEnemyMissiles] steady_updateExplosions] steady_cleanup])

subsection \<open>Distances and the blast envelope\<close>

lemma distance_less_iff:
  "distance p q < r \<longleftrightarrow> 0 < r \<and> (x q - x p)\<^sup>2 + (y q - y p)\<^sup>2 < r\<^sup>2"
proof (cases "0 < r")
  case True
  have "(sqrt ((x q - x p)\<^sup>2 + (y q - y p)\<^sup>2) < sqrt (r\<^sup>2)) =
        ((x q - x p)\<^sup>2 + (y q - y p)\<^sup>2 < r\<^sup>2)"
    by (rule real_sqrt_less_iff)
  moreover have "sqrt (r\<^sup>2) = r" using True by simp
  ultimately show ?thesis using True by (simp add: distance_def)
next
  case False
  have "0 \<le> distance p q" by (simp add: distance_def)
  with False show ?thesis by simp
qed



lemma updateExplosion_fst:
  "fst (updateExplosion dt c e w) =
     (if \<not> active e then e
      else if age e + dt > duration e then e\<lparr>age := age e + dt, active := False\<rparr>
      else e\<lparr>age := age e + dt,
             radius := blastRadius (duration e) (maxRadius e) (age e + dt)\<rparr>)"
  by (simp add: updateExplosion_def Let_def case_prod_beta)



subsection \<open>Interception of enemy missiles\<close>

lemma collide_fst:
  "fst (collide e c m w) =
     (if active m \<and> distance m e < radius e then m\<lparr>active := False\<rparr> else m)"
  by (simp add: collide_def Let_def case_prod_beta)

lemma collide_snd:
  "snd (collide e c m w) =
     (if active m \<and> distance m e < radius e
      then w\<lparr>score := score w + 20, uiScore := score w + 20, rng := Suc (rng w),
             explosions := explosions w @ [(secondaryOf m)\<lparr>id' := now c + rnd c (rng w)\<rparr>]\<rparr>
      else w)"
  by (simp add: collide_def Let_def case_prod_beta random_def secondaryOf_def)

lemma forEach_collide_fst:
  "fst (forEach (collide e c) ms w) =
     map (\<lambda>m. if active m \<and> distance m e < radius e then m\<lparr>active := False\<rparr> else m) ms"
  by (rule forEach_map) (rule collide_fst)

lemma forEach_collide_snd:
  "\<exists>new. explosions (snd (forEach (collide e c) ms w)) = explosions w @ new \<and>
     mset (map anonymous new) =
       mset (map secondaryOf (filter (\<lambda>m. active m \<and> distance m e < radius e) ms)) \<and>
     score (snd (forEach (collide e c) ms w)) =
       score w + 20 * int (length (filter (\<lambda>m. active m \<and> distance m e < radius e) ms)) \<and>
     enemyMissiles (snd (forEach (collide e c) ms w)) = enemyMissiles w"
proof (induction ms arbitrary: w)
  case Nil
  show ?case by simp
next
  case (Cons m ms)
  define w1 where "w1 = snd (collide e c m w)"
  obtain new where new: "explosions (snd (forEach (collide e c) ms w1)) = explosions w1 @ new"
    "mset (map anonymous new) =
       mset (map secondaryOf (filter (\<lambda>m. active m \<and> distance m e < radius e) ms))"
    "score (snd (forEach (collide e c) ms w1)) =
       score w1 + 20 * int (length (filter (\<lambda>m. active m \<and> distance m e < radius e) ms))"
    "enemyMissiles (snd (forEach (collide e c) ms w1)) = enemyMissiles w1"
    using Cons.IH[of w1] by blast
  show ?case
  proof (cases "active m \<and> distance m e < radius e")
    case True
    then have w1: "w1 = w\<lparr>score := score w + 20, uiScore := score w + 20, rng := Suc (rng w),
        explosions := explosions w @ [(secondaryOf m)\<lparr>id' := now c + rnd c (rng w)\<rparr>]\<rparr>"
      by (simp add: w1_def collide_snd)
    have a: "anonymous ((secondaryOf m)\<lparr>id' := k\<rparr>) = secondaryOf m" for k
      by (simp add: anonymous_def secondaryOf_def)
    show ?thesis
      apply (rule exI[of _ "(secondaryOf m)\<lparr>id' := now c + rnd c (rng w)\<rparr> # new"])
      using True new by (simp add: w1_def[symmetric] a) (simp add: w1)
  next
    case False
    then have w1: "w1 = w" by (auto simp add: w1_def collide_snd)
    show ?thesis
      apply (rule exI[of _ new])
      using False new by (simp add: w1_def[symmetric]) (simp add: w1)
  qed
qed


lemma updateExplosion_snd:
  "\<exists>new. explosions (snd (updateExplosion dt c e w)) = explosions w @ new \<and>
     mset (map anonymous new) =
       mset (map secondaryOf (filter (\<lambda>m. active m \<and> blasts dt e m) (enemyMissiles w))) \<and>
     score (snd (updateExplosion dt c e w)) =
       score w + 20 * int (length (filter (\<lambda>m. active m \<and> blasts dt e m) (enemyMissiles w))) \<and>
     enemyMissiles (snd (updateExplosion dt c e w)) =
       map (\<lambda>m. if active m \<and> blasts dt e m then m\<lparr>active := False\<rparr> else m) (enemyMissiles w)"
proof (cases "active e \<and> \<not> age e + dt > duration e")
  case True
  define e2 where
    "e2 = e\<lparr>age := age e + dt, radius := blastRadius (duration e) (maxRadius e) (age e + dt)\<rparr>"
  have s: "snd (updateExplosion dt c e w) =
      (snd (forEach (collide e2 c) (enemyMissiles w) w))
        \<lparr>enemyMissiles := fst (forEach (collide e2 c) (enemyMissiles w) w)\<rparr>"
    using True by (simp add: updateExplosion_def Let_def case_prod_beta e2_def)
  have P': "(active m \<and> distance m e2 < radius e2) = (active m \<and> blasts dt e m)" for m
    using True by (simp add: e2_def blasts_def distance_def)
  then have P: "(\<lambda>m. active m \<and> distance m e2 < radius e2) = (\<lambda>m. active m \<and> blasts dt e m)"
    by (simp add: fun_eq_iff)
  from forEach_collide_snd[of e2 c "enemyMissiles w" w] obtain new where
    "explosions (snd (forEach (collide e2 c) (enemyMissiles w) w)) = explosions w @ new"
    "mset (map anonymous new) =
       mset (map secondaryOf (filter (\<lambda>m. active m \<and> blasts dt e m) (enemyMissiles w)))"
    "score (snd (forEach (collide e2 c) (enemyMissiles w) w)) =
       score w + 20 * int (length (filter (\<lambda>m. active m \<and> blasts dt e m) (enemyMissiles w)))"
    unfolding P by blast
  then show ?thesis
    by (intro exI[of _ new]) (simp add: s forEach_collide_fst P')
next
  case False
  then have s: "snd (updateExplosion dt c e w) = w"
    by (auto simp add: updateExplosion_def Let_def)
  have P: "\<not> blasts dt e m" for m using False by (auto simp: blasts_def)
  show ?thesis by (intro exI[of _ "[]"]) (simp add: s P)
qed

lemma kill_twice_map:
  assumes "\<And>m. \<not> B (d m)"
  shows "map (\<lambda>m. if B m then d m else m) (map (\<lambda>m. if A m then d m else m) ms) =
         map (\<lambda>m. if A m \<or> B m then d m else m) ms"
  by (induction ms) (auto simp: assms)

lemma kill_twice_length:
  assumes "\<And>m. \<not> B (d m)"
  shows "length (filter A ms) + length (filter B (map (\<lambda>m. if A m then d m else m) ms)) =
         length (filter (\<lambda>m. A m \<or> B m) ms)"
  by (induction ms) (auto simp: assms)

lemma kill_twice_mset:
  assumes "\<And>m. \<not> B (d m)"
  shows "mset (map g (filter A ms)) + mset (map g (filter B (map (\<lambda>m. if A m then d m else m) ms))) =
         mset (map g (filter (\<lambda>m. A m \<or> B m) ms))"
  by (induction ms) (auto simp: assms)

lemma intercepted_Cons:
  "intercepted dt (e # es) = (\<lambda>m. (active m \<and> blasts dt e m) \<or> intercepted dt es m)"
  by (auto simp: intercepted_def fun_eq_iff)

lemma intercepted_inactive: "\<not> intercepted dt es (m\<lparr>active := False\<rparr>)"
  by (simp add: intercepted_def)

lemma forEach_updateExplosion_snd:
  "\<exists>new. explosions (snd (forEach (updateExplosion dt c) es w)) = explosions w @ new \<and>
     mset (map anonymous new) =
       mset (map secondaryOf (filter (intercepted dt es) (enemyMissiles w))) \<and>
     score (snd (forEach (updateExplosion dt c) es w)) =
       score w + 20 * int (length (filter (intercepted dt es) (enemyMissiles w))) \<and>
     enemyMissiles (snd (forEach (updateExplosion dt c) es w)) =
       map (\<lambda>m. if intercepted dt es m then m\<lparr>active := False\<rparr> else m) (enemyMissiles w)"
proof (induction es arbitrary: w)
  case Nil
  show ?case by (simp add: intercepted_def)
next
  case (Cons e es)
  define w1 where "w1 = snd (updateExplosion dt c e w)"
  define A where "A = (\<lambda>m. active m \<and> blasts dt e m)"
  define B where "B = intercepted dt es"
  define d where "d = (\<lambda>m::missile. m\<lparr>active := False\<rparr>)"
  have nB: "\<not> B (d m)" for m by (simp add: B_def d_def intercepted_inactive)
  from updateExplosion_snd[of dt c e w] obtain new1 where n1:
    "explosions w1 = explosions w @ new1"
    "mset (map anonymous new1) = mset (map secondaryOf (filter A (enemyMissiles w)))"
    "score w1 = score w + 20 * int (length (filter A (enemyMissiles w)))"
    "enemyMissiles w1 = map (\<lambda>m. if A m then d m else m) (enemyMissiles w)"
    unfolding w1_def A_def d_def by blast
  from Cons.IH[of w1] obtain new2 where n2:
    "explosions (snd (forEach (updateExplosion dt c) es w1)) = explosions w1 @ new2"
    "mset (map anonymous new2) = mset (map secondaryOf (filter B (enemyMissiles w1)))"
    "score (snd (forEach (updateExplosion dt c) es w1)) =
       score w1 + 20 * int (length (filter B (enemyMissiles w1)))"
    "enemyMissiles (snd (forEach (updateExplosion dt c) es w1)) =
       map (\<lambda>m. if B m then d m else m) (enemyMissiles w1)"
    unfolding B_def d_def by blast
  have r: "snd (forEach (updateExplosion dt c) (e # es) w) =
      snd (forEach (updateExplosion dt c) es w1)"
    by (simp add: w1_def)
  have i: "intercepted dt (e # es) = (\<lambda>m. A m \<or> B m)"
    by (simp add: intercepted_Cons A_def B_def)
  have e1: "explosions (snd (forEach (updateExplosion dt c) (e # es) w)) =
      explosions w @ (new1 @ new2)"
    unfolding r by (simp add: n2(1) n1(1))
  have e2: "mset (map anonymous (new1 @ new2)) =
      mset (map secondaryOf (filter (intercepted dt (e # es)) (enemyMissiles w)))"
  proof -
    have "mset (map anonymous (new1 @ new2)) =
        mset (map secondaryOf (filter A (enemyMissiles w))) +
        mset (map secondaryOf (filter B (map (\<lambda>m. if A m then d m else m) (enemyMissiles w))))"
      using n1(2) n2(2) by (simp add: n1(4))
    also have "\<dots> = mset (map secondaryOf (filter (\<lambda>m. A m \<or> B m) (enemyMissiles w)))"
      by (rule kill_twice_mset[of B d secondaryOf A "enemyMissiles w", OF nB])
    finally show ?thesis unfolding i .
  qed
  have e3: "score (snd (forEach (updateExplosion dt c) (e # es) w)) =
      score w + 20 * int (length (filter (intercepted dt (e # es)) (enemyMissiles w)))"
    unfolding i using kill_twice_length[of B d A "enemyMissiles w", OF nB]
    unfolding r by (simp add: n2(3) n1(3) n1(4))
  have e4: "enemyMissiles (snd (forEach (updateExplosion dt c) (e # es) w)) =
      map (\<lambda>m. if intercepted dt (e # es) m then m\<lparr>active := False\<rparr> else m) (enemyMissiles w)"
    unfolding i using kill_twice_map[of B d A "enemyMissiles w", OF nB]
    unfolding r by (simp add: n2(4) n1(4) d_def)
  from e1 e2 e3 e4 show ?case by blast
qed

lemma forEach_updateExplosion_fst:
  "fst (forEach (updateExplosion dt c) es w) = map (\<lambda>e. fst (updateExplosion dt c e w')) es"
  by (rule forEach_map) (simp add: updateExplosion_fst)

lemma updateExplosions_eq:
  "\<exists>new.
     explosions (updateExplosions dt c w) =
       map (\<lambda>e. fst (updateExplosion dt c e w)) (explosions w) @ new \<and>
     mset (map anonymous new) =
       mset (map secondaryOf (filter (intercepted dt (explosions w)) (enemyMissiles w))) \<and>
     enemyMissiles (updateExplosions dt c w) =
       map (\<lambda>m. if intercepted dt (explosions w) m then m\<lparr>active := False\<rparr> else m)
         (enemyMissiles w) \<and>
     score (updateExplosions dt c w) =
       score w + 20 * int (length (filter (intercepted dt (explosions w)) (enemyMissiles w)))"
proof -
  from forEach_updateExplosion_snd[of dt c "explosions w" w] obtain new where n:
    "explosions (snd (forEach (updateExplosion dt c) (explosions w) w)) = explosions w @ new"
    "mset (map anonymous new) =
       mset (map secondaryOf (filter (intercepted dt (explosions w)) (enemyMissiles w)))"
    "score (snd (forEach (updateExplosion dt c) (explosions w) w)) =
       score w + 20 * int (length (filter (intercepted dt (explosions w)) (enemyMissiles w)))"
    "enemyMissiles (snd (forEach (updateExplosion dt c) (explosions w) w)) =
       map (\<lambda>m. if intercepted dt (explosions w) m then m\<lparr>active := False\<rparr> else m)
         (enemyMissiles w)"
    by blast
  show ?thesis
    using n
    by (intro exI[of _ new])
       (simp add: updateExplosions_def case_prod_beta
          forEach_updateExplosion_fst[of dt c "explosions w" w w])
qed

text \<open>
  C4. The collision pass of one tick: every explosion first ages; an enemy missile is
  deactivated exactly when it is intercepted, that is, active and strictly within the current
  radius of an explosion that is still active at its new age; the score grows by 20 for each
  intercepted missile, once; and the explosions pushed during the pass are, identifiers
  aside, one secondary explosion (maximal radius 30, duration 600) at the position of each
  intercepted missile.
\<close>

theorem interception:
  "\<exists>new.
     explosions (updateExplosions dt c w) =
       map (\<lambda>e. fst (updateExplosion dt c e w)) (explosions w) @ new \<and>
     mset (map anonymous new) =
       mset (map secondaryOf (filter (intercepted dt (explosions w)) (enemyMissiles w))) \<and>
     enemyMissiles (updateExplosions dt c w) =
       map (\<lambda>m. if intercepted dt (explosions w) m then m\<lparr>active := False\<rparr> else m)
         (enemyMissiles w) \<and>
     score (updateExplosions dt c w) =
       score w + 20 * int (length (filter (intercepted dt (explosions w)) (enemyMissiles w)))"
  by (rule updateExplosions_eq)

theorem interception_witness:
  "map active (enemyMissiles (updateExplosions 10 env0 blastExample)) = [False, True] \<and>
   score (updateExplosions 10 env0 blastExample) = score blastExample + 20"
  using interception[of 10 env0 blastExample]
  by (auto simp: blastExample_def initial_def intercepted_def blasts_def distance_less_iff
      blastRadius_def)

subsection \<open>Enemy impacts\<close>

lemma checkDestruction_fst:
  "fst (checkDestruction m c s w) =
     (if active s \<and> distance m s < 35 then s\<lparr>active := False\<rparr> else s)"
  by (simp add: checkDestruction_def Let_def case_prod_beta)

lemma checkDestruction_snd:
  "snd (checkDestruction m c s w) =
     (if active s \<and> distance m s < 35
      then w\<lparr>rng := Suc (rng w),
             explosions := explosions w @ [(debrisOf s)\<lparr>id' := now c + rnd c (rng w)\<rparr>]\<rparr>
      else w)"
  by (simp add: checkDestruction_def Let_def case_prod_beta random_def debrisOf_def)

lemma forEach_checkDestruction_fst:
  "fst (forEach (checkDestruction m c) ss w) =
     map (\<lambda>s. if active s \<and> distance m s < 35 then s\<lparr>active := False\<rparr> else s) ss"
  by (rule forEach_map) (rule checkDestruction_fst)

lemma forEach_checkDestruction_snd:
  "\<exists>new. explosions (snd (forEach (checkDestruction m c) ss w)) = explosions w @ new \<and>
     map anonymous new = map debrisOf (filter (\<lambda>s. active s \<and> distance m s < 35) ss) \<and>
     cities (snd (forEach (checkDestruction m c) ss w)) = cities w \<and>
     towers (snd (forEach (checkDestruction m c) ss w)) = towers w"
proof (induction ss arbitrary: w)
  case Nil
  show ?case by simp
next
  case (Cons s ss)
  define w1 where "w1 = snd (checkDestruction m c s w)"
  obtain new where new: "explosions (snd (forEach (checkDestruction m c) ss w1)) = explosions w1 @ new"
    "map anonymous new = map debrisOf (filter (\<lambda>s. active s \<and> distance m s < 35) ss)"
    "cities (snd (forEach (checkDestruction m c) ss w1)) = cities w1"
    "towers (snd (forEach (checkDestruction m c) ss w1)) = towers w1"
    using Cons.IH[of w1] by blast
  have a: "anonymous ((debrisOf s)\<lparr>id' := k\<rparr>) = debrisOf s" for k
    by (simp add: anonymous_def debrisOf_def)
  show ?case
  proof (cases "active s \<and> distance m s < 35")
    case True
    then have w1: "w1 = w\<lparr>rng := Suc (rng w),
        explosions := explosions w @ [(debrisOf s)\<lparr>id' := now c + rnd c (rng w)\<rparr>]\<rparr>"
      by (simp add: w1_def checkDestruction_snd)
    show ?thesis
      apply (rule exI[of _ "(debrisOf s)\<lparr>id' := now c + rnd c (rng w)\<rparr> # new"])
      using True new by (simp add: w1_def[symmetric] a) (simp add: w1)
  next
    case False
    then have w1: "w1 = w" by (auto simp add: w1_def checkDestruction_snd)
    show ?thesis
      apply (rule exI[of _ new])
      using False new by (simp add: w1_def[symmetric]) (simp add: w1)
  qed
qed

lemma destroyStructures_eq:
  "\<exists>new. explosions (destroyStructures m c w) = explosions w @ new \<and>
     map anonymous new =
       map debrisOf (filter (\<lambda>s. active s \<and> distance m s < 35) (cities w)) @
       map debrisOf (filter (\<lambda>s. active s \<and> distance m s < 35) (towers w)) \<and>
     cities (destroyStructures m c w) =
       map (\<lambda>s. if active s \<and> distance m s < 35 then s\<lparr>active := False\<rparr> else s) (cities w) \<and>
     towers (destroyStructures m c w) =
       map (\<lambda>s. if active s \<and> distance m s < 35 then s\<lparr>active := False\<rparr> else s) (towers w)"
proof -
  define w1 where "w1 = snd (forEach (checkDestruction m c) (cities w) w)"
  define w2 where "w2 = w1\<lparr>cities := fst (forEach (checkDestruction m c) (cities w) w)\<rparr>"
  define w3 where "w3 = snd (forEach (checkDestruction m c) (towers w2) w2)"
  have r: "destroyStructures m c w = w3\<lparr>towers := fst (forEach (checkDestruction m c) (towers w2) w2)\<rparr>"
    by (simp add: destroyStructures_def case_prod_beta w1_def w2_def w3_def Let_def)
  from forEach_checkDestruction_snd[of m c "cities w" w] obtain new1 where n1:
    "explosions w1 = explosions w @ new1"
    "map anonymous new1 = map debrisOf (filter (\<lambda>s. active s \<and> distance m s < 35) (cities w))"
    "towers w1 = towers w"
    unfolding w1_def by blast
  have t2: "towers w2 = towers w" "explosions w2 = explosions w1"
    "cities w2 = fst (forEach (checkDestruction m c) (cities w) w)"
    by (simp_all add: w2_def n1(3))
  from forEach_checkDestruction_snd[of m c "towers w2" w2] obtain new2 where n2:
    "explosions w3 = explosions w2 @ new2"
    "map anonymous new2 = map debrisOf (filter (\<lambda>s. active s \<and> distance m s < 35) (towers w2))"
    "cities w3 = cities w2"
    unfolding w3_def by blast
  show ?thesis
    by (intro exI[of _ "new1 @ new2"])
       (simp add: r n2 n1 t2 forEach_checkDestruction_fst)
qed

lemma landed_fst:
  assumes "active m" and "1 \<le> progress m + speed m * dt * 0.005"
  shows "\<not> active (fst (updateEnemyMissile dt c m w)) \<and>
    progress (fst (updateEnemyMissile dt c m w)) = progress m + speed m * dt * 0.005 \<and>
    x (fst (updateEnemyMissile dt c m w)) =
      startX m + (targetX m - startX m) * progress (fst (updateEnemyMissile dt c m w)) \<and>
    y (fst (updateEnemyMissile dt c m w)) =
      startY m + (targetY m - startY m) * progress (fst (updateEnemyMissile dt c m w))"
  using assms by (simp add: updateEnemyMissile_def Let_def random_def)

lemma landed_snd:
  assumes "active m" and "1 \<le> progress m + speed m * dt * 0.005"
  shows "snd (updateEnemyMissile dt c m w) =
    destroyStructures (fst (updateEnemyMissile dt c m w)) c
      (w\<lparr>rng := Suc (Suc (rng w)),
         explosions := explosions w @
           [(impactOf (fst (updateEnemyMissile dt c m w)))
              \<lparr>id' := now c + rnd c (Suc (rng w))\<rparr>]\<rparr>)"
  using assms by (simp add: updateEnemyMissile_def Let_def random_def impactOf_def)

text \<open>
  What a landing does. An active enemy missile whose progress reaches 1 in this tick is
  deactivated at its interpolated position. Every active city and tower at distance strictly
  less than 35 from that position is deactivated, the others are left as they are; and the
  explosions pushed are, identifiers aside, the impact explosion followed by one debris
  explosion (maximal radius 50, duration 1000) at the position of each structure destroyed,
  cities first: as many as fall within the radius.
\<close>

lemma landing_damage:
  assumes "active m" and "1 \<le> progress m + speed m * dt * 0.005"
    and "updateEnemyMissile dt c m w = (m', w')"
  shows "\<not> active m' \<and>
    progress m' = progress m + speed m * dt * 0.005 \<and>
    x m' = startX m + (targetX m - startX m) * progress m' \<and>
    y m' = startY m + (targetY m - startY m) * progress m' \<and>
    cities w' =
      map (\<lambda>s. if active s \<and> distance m' s < 35 then s\<lparr>active := False\<rparr> else s) (cities w) \<and>
    towers w' =
      map (\<lambda>s. if active s \<and> distance m' s < 35 then s\<lparr>active := False\<rparr> else s) (towers w) \<and>
    (\<exists>new. explosions w' = explosions w @ new \<and>
       map anonymous new =
         impactOf m' #
         map debrisOf (filter (\<lambda>s. active s \<and> distance m' s < 35) (cities w)) @
         map debrisOf (filter (\<lambda>s. active s \<and> distance m' s < 35) (towers w)))"
proof -
  define i where "i = (impactOf m')\<lparr>id' := now c + rnd c (Suc (rng w))\<rparr>"
  define w1 where "w1 = w\<lparr>rng := Suc (Suc (rng w)), explosions := explosions w @ [i]\<rparr>"
  have m': "fst (updateEnemyMissile dt c m w) = m'" and w': "snd (updateEnemyMissile dt c m w) = w'"
    by (simp_all add: assms(3))
  note f = landed_fst[OF assms(1,2), of c w, unfolded m']
  have s: "w' = destroyStructures m' c w1"
    using landed_snd[OF assms(1,2), of c w] unfolding m' w' w1_def i_def .
  have w1: "cities w1 = cities w" "towers w1 = towers w" "explosions w1 = explosions w @ [i]"
    by (simp_all add: w1_def)
  have a: "anonymous i = impactOf m'"
    by (simp add: i_def anonymous_def impactOf_def)
  from destroyStructures_eq[of m' c w1] obtain new where n:
    "explosions (destroyStructures m' c w1) = explosions w1 @ new \<and>
     map anonymous new =
       map debrisOf (filter (\<lambda>s. active s \<and> distance m' s < 35) (cities w1)) @
       map debrisOf (filter (\<lambda>s. active s \<and> distance m' s < 35) (towers w1)) \<and>
     cities (destroyStructures m' c w1) =
       map (\<lambda>s. if active s \<and> distance m' s < 35 then s\<lparr>active := False\<rparr> else s) (cities w1) \<and>
     towers (destroyStructures m' c w1) =
       map (\<lambda>s. if active s \<and> distance m' s < 35 then s\<lparr>active := False\<rparr> else s) (towers w1)" ..
  note n' = n[folded s, unfolded w1]
  have e: "explosions w' = explosions w @ (i # new)"
    using n'[THEN conjunct1] by simp
  have b: "map anonymous (i # new) =
      impactOf m' #
      map debrisOf (filter (\<lambda>s. active s \<and> distance m' s < 35) (cities w)) @
      map debrisOf (filter (\<lambda>s. active s \<and> distance m' s < 35) (towers w))"
    using n'[THEN conjunct2, THEN conjunct1] by (simp only: list.map a)
  have ex: "\<exists>new. explosions w' = explosions w @ new \<and>
       map anonymous new =
         impactOf m' #
         map debrisOf (filter (\<lambda>s. active s \<and> distance m' s < 35) (cities w)) @
         map debrisOf (filter (\<lambda>s. active s \<and> distance m' s < 35) (towers w))"
    using e b by (intro exI[of _ "i # new"] conjI)
  show ?thesis
    using f n'[THEN conjunct2, THEN conjunct2] ex by (intro conjI) (elim conjE, assumption)+
qed

lemma landing_damage_example:
  "map active (cities (snd (updateEnemyMissile 500 env0 landingMissile impactExample))) =
     [False, False, True] \<and>
   map active (towers (snd (updateEnemyMissile 500 env0 landingMissile impactExample))) =
     [False, True] \<and>
   map (\<lambda>e. (x e, y e, maxRadius e, duration e)) (map anonymous
     (explosions (snd (updateEnemyMissile 500 env0 landingMissile impactExample)))) =
     [(100, 560, 40, 800), (100, 575, 50, 1000), (120, 575, 50, 1000), (80, 570, 50, 1000)]"
proof -
  define m' where "m' = fst (updateEnemyMissile 500 env0 landingMissile impactExample)"
  define w' where "w' = snd (updateEnemyMissile 500 env0 landingMissile impactExample)"
  have "updateEnemyMissile 500 env0 landingMissile impactExample = (m', w')"
    by (simp add: m'_def w'_def)
  from landing_damage[OF _ _ this]
  have t: "x m' = 100 \<and> y m' = 560 \<and>
    cities w' =
      map (\<lambda>s. if active s \<and> distance m' s < 35 then s\<lparr>active := False\<rparr> else s)
        (cities impactExample) \<and>
    towers w' =
      map (\<lambda>s. if active s \<and> distance m' s < 35 then s\<lparr>active := False\<rparr> else s)
        (towers impactExample) \<and>
    (\<exists>new. explosions w' = explosions impactExample @ new \<and>
       map anonymous new =
         impactOf m' #
         map debrisOf (filter (\<lambda>s. active s \<and> distance m' s < 35) (cities impactExample)) @
         map debrisOf (filter (\<lambda>s. active s \<and> distance m' s < 35) (towers impactExample)))"
    by (simp add: landingMissile_def)
  then have p: "x m' = 100" "y m' = 560" by simp_all
  from t show ?thesis
    unfolding m'_def[symmetric] w'_def[symmetric]
    by (auto simp: p impactExample_def initial_def distance_less_iff impactOf_def debrisOf_def)
qed

subsection \<open>Where an enemy missile explodes\<close>

text \<open>
  C1, at an input where it fails. The enemy missile \<open>overshootMissile\<close> flies from (0, 0)
  to (100, 560) and has progress 0.999; a frame of 16 ms takes its progress to 1.0022.
  The missile is deactivated and one impact explosion (maximal radius 40, duration 800) is
  created, at the interpolated position (100.22, 561.232), past the target point. The same
  missile in the player's loop is deactivated with one explosion (maximal radius 70,
  duration 1200) at the target point (100, 560) itself.
\<close>

theorem enemy_impact_overshoots:
  "map (\<lambda>e. (x e, y e, maxRadius e, duration e))
     (explosions (snd (updateEnemyMissile 16 env0 overshootMissile initial))) =
     [(10022 / 100, 561232 / 1000, 40, 800)] \<and>
   progress (fst (updateEnemyMissile 16 env0 overshootMissile initial)) = 10022 / 10000 \<and>
   active (fst (updateEnemyMissile 16 env0 overshootMissile initial)) = False \<and>
   targetX overshootMissile = 100 \<and> targetY overshootMissile = 560 \<and>
   map (\<lambda>e. (x e, y e, maxRadius e, duration e))
     (explosions (snd (updatePlayerMissile 16 env0 overshootMissile initial))) =
     [(100, 560, 70, 1200)] \<and>
   active (fst (updatePlayerMissile 16 env0 overshootMissile initial)) = False"
  by (simp add: updateEnemyMissile_def updatePlayerMissile_def Let_def random_def env0_def
      overshootMissile_def initial_def destroyStructures_def)

subsection \<open>Firing\<close>

lemma closestTower_None:
  "closestTower p ts i best = None \<longleftrightarrow>
     best = None \<and> (\<forall>t\<in>set ts. \<not> (active t \<and> 0 < ammo t))"
  by (induction ts arbitrary: i best) (auto simp: Let_def split: option.splits)

lemma closestTower_Some:
  "closestTower p ts i best = Some (k, d) \<Longrightarrow>
     (best = Some (k, d) \<or>
      (i \<le> k \<and> k < i + length ts \<and> active (ts ! (k - i)) \<and> 0 < ammo (ts ! (k - i)) \<and>
       d = distance (ts ! (k - i)) p)) \<and>
     (\<forall>t\<in>set ts. active t \<and> 0 < ammo t \<longrightarrow> d \<le> distance t p) \<and>
     (\<forall>j d0. best = Some (j, d0) \<longrightarrow> d \<le> d0)"
proof (induction ts arbitrary: i best)
  case Nil
  then show ?case by simp
next
  case (Cons t ts)
  define best' where "best' =
    (if active t \<and> ammo t > 0 then
       (let d = distance \<lparr>x = x t, y = y t\<rparr> p
        in case best of
             None \<Rightarrow> Some (i, d)
           | Some (j, minDist) \<Rightarrow> if d < minDist then Some (i, d) else best)
     else best)"
  have dd: "distance \<lparr>x = x t, y = y t\<rparr> p = distance t p"
    by (simp add: distance_def)
  from Cons.prems have r: "closestTower p ts (Suc i) best' = Some (k, d)"
    by (simp add: best'_def)
  note ih = Cons.IH[OF r]
  have ih1: "best' = Some (k, d) \<or>
      (Suc i \<le> k \<and> k < Suc i + length ts \<and> active (ts ! (k - Suc i)) \<and>
       0 < ammo (ts ! (k - Suc i)) \<and> d = distance (ts ! (k - Suc i)) p)"
    and ih2: "\<forall>t\<in>set ts. active t \<and> 0 < ammo t \<longrightarrow> d \<le> distance t p"
    and ih3: "\<forall>j d0. best' = Some (j, d0) \<longrightarrow> d \<le> d0"
    using ih by blast+
  have a: "best = Some (k, d) \<or>
      (i \<le> k \<and> k < i + length (t # ts) \<and> active ((t # ts) ! (k - i)) \<and>
       0 < ammo ((t # ts) ! (k - i)) \<and> d = distance ((t # ts) ! (k - i)) p)"
  proof (cases "best' = Some (k, d)")
    case True
    then show ?thesis
      by (auto simp: best'_def Let_def dd split: if_splits option.splits)
  next
    case False
    with ih1 have "Suc i \<le> k \<and> k < Suc i + length ts \<and> active (ts ! (k - Suc i)) \<and>
       0 < ammo (ts ! (k - Suc i)) \<and> d = distance (ts ! (k - Suc i)) p" by blast
    moreover from this have "k - i = Suc (k - Suc i)" by arith
    then have "(t # ts) ! (k - i) = ts ! (k - Suc i)" by simp
    ultimately show ?thesis by auto
  qed
  have b: "active t \<and> 0 < ammo t \<longrightarrow> d \<le> distance t p"
    using ih3 by (auto simp: best'_def Let_def dd split: if_splits option.splits)
  have c: "\<forall>j d0. best = Some (j, d0) \<longrightarrow> d \<le> d0"
    using ih3 by (auto simp: best'_def Let_def dd split: if_splits option.splits)
  from a b c ih2 show ?case by simp
qed


lemma fire_rejected: "GAME_HEIGHT - GROUND_HEIGHT + 10 < ty \<Longrightarrow> fire tx ty c w = w"
  by (simp add: fire_def)

lemma fire_no_ammo: "\<not> (\<exists>t\<in>set (towers w). active t \<and> 0 < ammo t) \<Longrightarrow> fire tx ty c w = w"
proof -
  assume "\<not> (\<exists>t\<in>set (towers w). active t \<and> 0 < ammo t)"
  then have "closestTower \<lparr>x = tx, y = ty\<rparr> (towers w) 0 None = None"
    by (simp add: closestTower_None)
  then show ?thesis by (simp add: fire_def)
qed

lemma fire_launch:
  assumes "ty \<le> GAME_HEIGHT - GROUND_HEIGHT + 10"
    and "\<exists>t\<in>set (towers w). active t \<and> 0 < ammo t"
  shows "\<exists>i<length (towers w).
    active (towers w ! i) \<and> 0 < ammo (towers w ! i) \<and>
    (\<forall>t\<in>set (towers w). active t \<and> 0 < ammo t \<longrightarrow>
       distance (towers w ! i) \<lparr>x = tx, y = ty\<rparr> \<le> distance t \<lparr>x = tx, y = ty\<rparr>) \<and>
    fire tx ty c w =
      w\<lparr>towers := (towers w)[i := (towers w ! i)\<lparr>ammo := ammo (towers w ! i) - 1\<rparr>],
        playerMissiles := playerMissiles w @
          [\<lparr>x = x (towers w ! i), y = y (towers w ! i) - 30, id' = now c, active = True,
            startX = x (towers w ! i), startY = y (towers w ! i) - 30,
            targetX = tx, targetY = ty, speed = 0.02, progress = 0,
            missile.color = ''#60a5fa'', trail = []\<rparr>]\<rparr>"
proof -
  from assms(2) have "closestTower \<lparr>x = tx, y = ty\<rparr> (towers w) 0 None \<noteq> None"
    by (simp add: closestTower_None)
  then obtain k d where kd: "closestTower \<lparr>x = tx, y = ty\<rparr> (towers w) 0 None = Some (k, d)"
    by (cases "closestTower \<lparr>x = tx, y = ty\<rparr> (towers w) 0 None") auto
  from closestTower_Some[OF kd]
  have k: "k < length (towers w)" "active (towers w ! k)" "0 < ammo (towers w ! k)"
    and m: "\<forall>t\<in>set (towers w). active t \<and> 0 < ammo t \<longrightarrow>
       distance (towers w ! k) \<lparr>x = tx, y = ty\<rparr> \<le> distance t \<lparr>x = tx, y = ty\<rparr>"
    by auto
  have f: "fire tx ty c w =
      w\<lparr>towers := (towers w)[k := (towers w ! k)\<lparr>ammo := ammo (towers w ! k) - 1\<rparr>],
        playerMissiles := playerMissiles w @
          [\<lparr>x = x (towers w ! k), y = y (towers w ! k) - 30, id' = now c, active = True,
            startX = x (towers w ! k), startY = y (towers w ! k) - 30,
            targetX = tx, targetY = ty, speed = 0.02, progress = 0,
            missile.color = ''#60a5fa'', trail = []\<rparr>]\<rparr>"
    using assms(1) by (simp add: fire_def kd Let_def)
  from k m f show ?thesis by (intro exI[of _ k]) (intro conjI)
qed

text \<open>
  C3. A click or touch while playing, on a canvas of non-zero size, mapped to the target
  \<open>(tx, ty)\<close>. If the target is not below the guard line (\<open>ty \<le> 570\<close>) and some active tower
  has ammo, then an active tower with ammo whose distance to the target is minimal among
  them loses exactly one round and exactly one player missile is appended, with speed 0.02,
  launched from the point 30 above that tower towards the target; nothing else changes. If
  the target is below the guard line or no active tower has ammo, nothing changes at all.
\<close>

theorem fire_closest_tower:
  assumes "gameState w = Playing" and "width' r \<noteq> 0" and "height' r \<noteq> 0"
    and "tx = (clientX - left' r) * (GAME_WIDTH / width' r)"
    and "ty = (clientY - top' r) * (GAME_HEIGHT / height' r)"
    and "w' = handleInput (Some r) clientX clientY c w"
  shows "(ty \<le> GAME_HEIGHT - GROUND_HEIGHT + 10 \<and> (\<exists>t\<in>set (towers w). active t \<and> 0 < ammo t) \<longrightarrow>
      (\<exists>i<length (towers w).
         active (towers w ! i) \<and> 0 < ammo (towers w ! i) \<and>
         (\<forall>t\<in>set (towers w). active t \<and> 0 < ammo t \<longrightarrow>
            distance (towers w ! i) \<lparr>x = tx, y = ty\<rparr> \<le> distance t \<lparr>x = tx, y = ty\<rparr>) \<and>
         w' =
           w\<lparr>towers := (towers w)[i := (towers w ! i)\<lparr>ammo := ammo (towers w ! i) - 1\<rparr>],
             playerMissiles := playerMissiles w @
               [\<lparr>x = x (towers w ! i), y = y (towers w ! i) - 30, id' = now c, active = True,
                 startX = x (towers w ! i), startY = y (towers w ! i) - 30,
                 targetX = tx, targetY = ty, speed = 0.02, progress = 0,
                 missile.color = ''#60a5fa'', trail = []\<rparr>]\<rparr>)) \<and>
    (GAME_HEIGHT - GROUND_HEIGHT + 10 < ty \<or> \<not> (\<exists>t\<in>set (towers w). active t \<and> 0 < ammo t) \<longrightarrow>
       w' = w)"
proof -
  have h: "w' = fire tx ty c w"
    using assms by (simp add: handleInput_def Let_def)
  show ?thesis
    unfolding h using fire_launch[of ty w tx c] fire_rejected[of ty tx c w] fire_no_ammo[of w tx ty c]
    by blast
qed

lemma session0_simps:
  "gameState session0 = Playing"
  "playerMissiles session0 = []"
  "towers session0 =
     [\<lparr>x = 80, y = 570, id' = 1, active = True, ammo = 20, maxAmmo = 20,
       tower.color = ''#60a5fa''\<rparr>,
      \<lparr>x = 400, y = 570, id' = 2, active = True, ammo = 40, maxAmmo = 40,
       tower.color = ''#60a5fa''\<rparr>,
      \<lparr>x = 720, y = 570, id' = 3, active = True, ammo = 20, maxAmmo = 20,
       tower.color = ''#60a5fa''\<rparr>]"
  by (simp_all add: session0_def render_def initGame_def setGameState_def initial_def Let_def
      GAME_WIDTH_def GAME_HEIGHT_def GROUND_HEIGHT_def)

theorem fire_closest_tower_witness:
  "map ammo (towers (handleInput (Some \<lparr>left' = 0, top' = 0, width' = 800, height' = 600\<rparr>)
      420 300 env0 session0)) = [20, 39, 20] \<and>
   map (\<lambda>m. (startX m, startY m, targetX m, targetY m, speed m, active m))
     (playerMissiles (handleInput (Some \<lparr>left' = 0, top' = 0, width' = 800, height' = 600\<rparr>)
        420 300 env0 session0)) = [(400, 540, 420, 300, 1 / 50, True)]"
  using fire_closest_tower[OF session0_simps(1),
      of "\<lparr>left' = 0, top' = 0, width' = 800, height' = 600\<rparr>" 420 420 300 300 _ env0, OF _ _ _ _ refl]
  by (auto simp: session0_simps distance_def GAME_WIDTH_def GAME_HEIGHT_def GROUND_HEIGHT_def
      less_Suc_eq numeral_3_eq_3)

subsection \<open>Where an enemy impact does its damage\<close>

lemma session0_cities:
  "map (\<lambda>s. (x s, y s, active s)) (cities session0) =
     [(160, 575, True), (240, 575, True), (320, 575, True),
      (480, 575, True), (560, 575, True), (640, 575, True)]"
  "explosions session0 = []"
  by (simp_all add: session0_def render_def initGame_def setGameState_def initial_def Let_def
      GAME_WIDTH_def GAME_HEIGHT_def GROUND_HEIGHT_def)

lemma anonymous_eqD:
  "anonymous e = r \<Longrightarrow>
   x e = x r \<and> y e = y r \<and> maxRadius e = maxRadius r \<and> duration e = duration r"
  by (auto simp: anonymous_def)

text \<open>
  C6, at an input where it fails. In a fresh session the enemy missile \<open>longFrameMissile\<close>
  is aimed at the first tower, at (80, 570), and has progress 0.9; a frame of 1000 ms takes
  its progress to 1.1. The missile lands: it is deactivated and its impact explosion is
  created at (80, 627). The distance 35 is measured from that position, not from the target
  point, so that the tower at the target point itself, and every other structure, stays
  active, and no debris explosion is created.
\<close>

theorem impact_spares_target:
  "targetX longFrameMissile = 80 \<and> targetY longFrameMissile = 570 \<and>
   map (\<lambda>t. (x t, y t, active t)) (towers session0) =
     [(80, 570, True), (400, 570, True), (720, 570, True)] \<and>
   progress (fst (updateEnemyMissile 1000 env0 longFrameMissile session0)) = 11 / 10 \<and>
   active (fst (updateEnemyMissile 1000 env0 longFrameMissile session0)) = False \<and>
   map (\<lambda>e. (x e, y e, maxRadius e, duration e))
     (explosions (snd (updateEnemyMissile 1000 env0 longFrameMissile session0))) =
     [(80, 627, 40, 800)] \<and>
   map active (towers (snd (updateEnemyMissile 1000 env0 longFrameMissile session0))) =
     [True, True, True] \<and>
   map active (cities (snd (updateEnemyMissile 1000 env0 longFrameMissile session0))) =
     [True, True, True, True, True, True]"
proof -
  define m' where "m' = fst (updateEnemyMissile 1000 env0 longFrameMissile session0)"
  define w' where "w' = snd (updateEnemyMissile 1000 env0 longFrameMissile session0)"
  have "updateEnemyMissile 1000 env0 longFrameMissile session0 = (m', w')"
    by (simp add: m'_def w'_def)
  from landing_damage[OF _ _ this]
  have t: "\<not> active m' \<and> progress m' = 11 / 10 \<and> x m' = 80 \<and> y m' = 627 \<and>
    cities w' =
      map (\<lambda>s. if active s \<and> distance m' s < 35 then s\<lparr>active := False\<rparr> else s)
        (cities session0) \<and>
    towers w' =
      map (\<lambda>s. if active s \<and> distance m' s < 35 then s\<lparr>active := False\<rparr> else s)
        (towers session0) \<and>
    (\<exists>new. explosions w' = explosions session0 @ new \<and>
       map anonymous new =
         impactOf m' #
         map debrisOf (filter (\<lambda>s. active s \<and> distance m' s < 35) (cities session0)) @
         map debrisOf (filter (\<lambda>s. active s \<and> distance m' s < 35) (towers session0)))"
    by (simp add: longFrameMissile_def)
  then have p: "x m' = 80" "y m' = 627" "progress m' = 11 / 10" "\<not> active m'" by simp_all
  have c: "cities session0 =
     [\<lparr>x = 160, y = 575, id' = 1, active = True, city.color = ''#34d399''\<rparr>,
      \<lparr>x = 240, y = 575, id' = 2, active = True, city.color = ''#34d399''\<rparr>,
      \<lparr>x = 320, y = 575, id' = 3, active = True, city.color = ''#34d399''\<rparr>,
      \<lparr>x = 480, y = 575, id' = 4, active = True, city.color = ''#34d399''\<rparr>,
      \<lparr>x = 560, y = 575, id' = 5, active = True, city.color = ''#34d399''\<rparr>,
      \<lparr>x = 640, y = 575, id' = 6, active = True, city.color = ''#34d399''\<rparr>]"
    by (simp add: session0_def render_def initGame_def setGameState_def initial_def Let_def
      GAME_WIDTH_def GAME_HEIGHT_def GROUND_HEIGHT_def)
  from t show ?thesis
    unfolding m'_def[symmetric] w'_def[symmetric]
    by (auto simp: p c session0_simps session0_cities distance_less_iff impactOf_def debrisOf_def
        longFrameMissile_def dest!: anonymous_eqD)
qed

subsection \<open>Step 1: spawning and wave completion\<close>

lemma pickTarget_world:
  "pickTarget c g ts w = Some (t, w') \<Longrightarrow> w' = w\<lparr>rng := rng w'\<rparr>"
  by (auto simp: pickTarget_def random_def Let_def split: if_splits)

lemma spawnEnemy_split:
  assumes "spawnEnemy c w = Some s"
  shows "\<exists>t w2 m. pickTarget c (rnd c (Suc (rng w)) * GAME_WIDTH, GAME_HEIGHT - GROUND_HEIGHT)
        (filter active (map asObject (cities w) @ map asObject (towers w)))
        (w\<lparr>spawnTimer := 0, enemiesSpawned := enemiesSpawned w + 1, rng := Suc (Suc (rng w))\<rparr>) =
        Some (t, w2) \<and> active m \<and>
      s = w2\<lparr>rng := Suc (Suc (rng w2)), enemyMissiles := enemyMissiles w2 @ [m]\<rparr>"
proof (cases "pickTarget c (rnd c (Suc (rng w)) * GAME_WIDTH, GAME_HEIGHT - GROUND_HEIGHT)
        (filter active (map asObject (cities w) @ map asObject (towers w)))
        (w\<lparr>spawnTimer := 0, enemiesSpawned := enemiesSpawned w + 1, rng := Suc (Suc (rng w))\<rparr>)")
  case None
  with assms show ?thesis
    by (simp add: spawnEnemy_def random_def Let_def)
next
  case (Some a)
  obtain t w2 where a: "a = (t, w2)" by (cases a)
  define M where "M = \<lparr>x = rnd c (rng w) * GAME_WIDTH, y = 0, id' = now c + rnd c (rng w2),
      active = True, startX = rnd c (rng w) * GAME_WIDTH, startY = 0, targetX = fst t,
      targetY = snd t,
      speed = (0.03 + rnd c (Suc (rng w2)) * 0.02) * enemySpeedMultiplier w2, progress = 0,
      missile.color = ''#ef4444'', trail = []\<rparr>"
  have s: "s = w2\<lparr>rng := Suc (Suc (rng w2)), enemyMissiles := enemyMissiles w2 @ [M]\<rparr>"
    using assms Some unfolding a M_def
    by (cases t) (simp add: spawnEnemy_def random_def Let_def)
  have m: "active M" by (simp add: M_def)
  from Some[unfolded a] m s show ?thesis
    by (intro exI[of _ t] exI[of _ w2] exI[of _ M] conjI)
qed

lemma spawnEnemy_fields:
  assumes "spawnEnemy c w = Some s"
  shows "pendingGameState s = pendingGameState w \<and> score s = score w \<and> towers s = towers w \<and>
    cities s = cities w \<and> timers s = timers w \<and> waveMessage s = waveMessage w \<and>
    wave s = wave w \<and> enemiesToSpawn s = enemiesToSpawn w \<and> gameState s = gameState w \<and>
    explosions s = explosions w \<and> playerMissiles s = playerMissiles w \<and>
    enemiesSpawned s = enemiesSpawned w + 1 \<and>
    (\<exists>m. active m \<and> enemyMissiles s = enemyMissiles w @ [m])"
proof -
  from spawnEnemy_split[OF assms] obtain t w2 m where
    p: "pickTarget c (rnd c (Suc (rng w)) * GAME_WIDTH, GAME_HEIGHT - GROUND_HEIGHT)
        (filter active (map asObject (cities w) @ map asObject (towers w)))
        (w\<lparr>spawnTimer := 0, enemiesSpawned := enemiesSpawned w + 1, rng := Suc (Suc (rng w))\<rparr>) =
        Some (t, w2)"
    and m: "active m"
    and s: "s = w2\<lparr>rng := Suc (Suc (rng w2)), enemyMissiles := enemyMissiles w2 @ [m]\<rparr>"
    by (elim exE conjE)
  note q = pickTarget_world[OF p]
  have f: "pendingGameState w2 = pendingGameState w" "score w2 = score w" "towers w2 = towers w"
    "cities w2 = cities w" "timers w2 = timers w" "waveMessage w2 = waveMessage w"
    "wave w2 = wave w" "enemiesToSpawn w2 = enemiesToSpawn w" "gameState w2 = gameState w"
    "explosions w2 = explosions w" "playerMissiles w2 = playerMissiles w"
    "enemiesSpawned w2 = enemiesSpawned w + 1" "enemyMissiles w2 = enemyMissiles w"
    by (subst q, simp)+
  show ?thesis
    unfolding s using m by (simp add: f)
qed

lemma spawnEnemies_done:
  assumes "\<not> enemiesSpawned w < enemiesToSpawn w" and "enemyMissiles w = []" and "explosions w = []"
  shows "spawnEnemies dt c w = Some (waveComplete w)"
  using assms by (simp add: spawnEnemies_def)

lemma spawnEnemies_fields:
  assumes "spawnEnemies dt c w = Some s"
    and "\<not> (\<not> enemiesSpawned w < enemiesToSpawn w \<and> enemyMissiles w = [] \<and> explosions w = [])"
  shows "pendingGameState s = pendingGameState w \<and> score s = score w \<and> towers s = towers w \<and>
    cities s = cities w \<and> timers s = timers w \<and> waveMessage s = waveMessage w \<and>
    wave s = wave w \<and> enemiesToSpawn s = enemiesToSpawn w \<and> gameState s = gameState w \<and>
    explosions s = explosions w \<and> playerMissiles s = playerMissiles w \<and>
    (enemiesSpawned s = enemiesSpawned w \<or>
     enemiesSpawned w < enemiesToSpawn w \<and> enemiesSpawned s = enemiesSpawned w + 1) \<and>
    (\<exists>new. enemyMissiles s = enemyMissiles w @ new \<and> (\<forall>m\<in>set new. active m))"
proof (cases "enemiesSpawned w < enemiesToSpawn w")
  case True
  define w1 where "w1 = w\<lparr>spawnTimer := spawnTimer w + dt\<rparr>"
  show ?thesis
  proof (cases "spawnTimer w1 > spawnInterval w1")
    case t: True
    then have "spawnEnemy c w1 = Some s"
      using assms(1) True by (simp add: spawnEnemies_def w1_def Let_def)
    from spawnEnemy_fields[OF this] obtain m where
      f: "pendingGameState s = pendingGameState w1" "score s = score w1" "towers s = towers w1"
        "cities s = cities w1" "timers s = timers w1" "waveMessage s = waveMessage w1"
        "wave s = wave w1" "enemiesToSpawn s = enemiesToSpawn w1" "gameState s = gameState w1"
        "explosions s = explosions w1" "playerMissiles s = playerMissiles w1"
        "enemiesSpawned s = enemiesSpawned w1 + 1"
      and m: "active m" "enemyMissiles s = enemyMissiles w1 @ [m]"
      by (elim exE conjE)
    have "\<exists>new. enemyMissiles s = enemyMissiles w @ new \<and> (\<forall>m\<in>set new. active m)"
      using m by (intro exI[of _ "[m]"]) (simp add: w1_def)
    then show ?thesis using f True by (simp add: w1_def)
  next
    case False
    then have "s = w1"
      using assms(1) True by (simp add: spawnEnemies_def w1_def Let_def)
    then show ?thesis by (simp add: w1_def)
  qed
next
  case False
  with assms have "s = w" by (auto simp: spawnEnemies_def split: if_splits)
  then show ?thesis by simp
qed

lemma waveComplete_fields:
  "pendingGameState (waveComplete w) = pendingGameState w @ [Wave_complete] \<and>
   score (waveComplete w) = score w + ammoBonus (towers w) \<and>
   uiScore (waveComplete w) = score w + ammoBonus (towers w) \<and>
   waveMessage (waveComplete w) = ''+'' @ toString (ammoBonus (towers w)) @ '' Pts'' \<and>
   timers (waveComplete w) = Suc (timers w) \<and>
   towers (waveComplete w) = towers w \<and> cities (waveComplete w) = cities w \<and>
   wave (waveComplete w) = wave w \<and> enemiesToSpawn (waveComplete w) = enemiesToSpawn w \<and>
   enemiesSpawned (waveComplete w) = enemiesSpawned w \<and>
   gameState (waveComplete w) = gameState w \<and>
   explosions (waveComplete w) = explosions w \<and>
   playerMissiles (waveComplete w) = playerMissiles w \<and>
   enemyMissiles (waveComplete w) = enemyMissiles w"
  by (simp add: waveComplete_def setGameState_def Let_def)

lemma fold_bonus:
  "fold (\<lambda>t bonus. if active t then bonus + ammo t * AMMO_BONUS else bonus) ts b =
     b + (\<Sum>t\<leftarrow>filter active ts. ammo t * AMMO_BONUS)"
  by (induction ts arbitrary: b) simp_all

lemma ammoBonus_sum: "ammoBonus ts = (\<Sum>t\<leftarrow>filter active ts. ammo t * AMMO_BONUS)"
  by (simp add: ammoBonus_def fold_bonus)

lemma ammoBonus_nonneg: "\<forall>t\<in>set ts. 0 \<le> ammo t \<Longrightarrow> 0 \<le> ammoBonus ts"
  unfolding ammoBonus_sum by (rule sum_list_nonneg) (auto simp: AMMO_BONUS_def)

lemma ammoBonus_active: "ammoBonus ts \<noteq> 0 \<Longrightarrow> filter active ts \<noteq> []"
  by (auto simp: ammoBonus_sum)

lemma checkEndGame_fields:
  "pendingGameState (checkEndGame gs s) =
     pendingGameState s @
       (if filter active (towers s) = [] then [Defeat]
        else if WIN_SCORE \<le> score s \<and> gs = Playing then [Victory] else []) \<and>
   score (checkEndGame gs s) = score s \<and> towers (checkEndGame gs s) = towers s \<and>
   timers (checkEndGame gs s) = timers s \<and> waveMessage (checkEndGame gs s) = waveMessage s \<and>
   uiScore (checkEndGame gs s) = uiScore s \<and>
   wave (checkEndGame gs s) = wave s \<and> enemiesToSpawn (checkEndGame gs s) = enemiesToSpawn s \<and>
   enemiesSpawned (checkEndGame gs s) = enemiesSpawned s \<and>
   explosions (checkEndGame gs s) = explosions s \<and>
   playerMissiles (checkEndGame gs s) = playerMissiles s \<and>
   enemyMissiles (checkEndGame gs s) = enemyMissiles s"
  by (simp add: checkEndGame_def setGameState_def Let_def)

subsection \<open>What the motion and collision steps do not touch\<close>

lemma updatePlayerMissile_frame:
  "score (snd (updatePlayerMissile dt c m w)) = score w \<and>
   uiScore (snd (updatePlayerMissile dt c m w)) = uiScore w \<and>
   enemyMissiles (snd (updatePlayerMissile dt c m w)) = enemyMissiles w \<and>
   towers (snd (updatePlayerMissile dt c m w)) = towers w"
  by (simp add: updatePlayerMissile_def random_def Let_def case_prod_beta)

lemma updatePlayerMissiles_frame:
  "score (updatePlayerMissiles dt c w) = score w \<and>
   uiScore (updatePlayerMissiles dt c w) = uiScore w \<and>
   enemyMissiles (updatePlayerMissiles dt c w) = enemyMissiles w \<and>
   towers (updatePlayerMissiles dt c w) = towers w"
proof -
  have "(\<lambda>s s'. score s' = score s \<and> uiScore s' = uiScore s \<and>
      enemyMissiles s' = enemyMissiles s \<and> towers s' = towers s)
      w (snd (forEach (updatePlayerMissile dt c) (playerMissiles w) w))"
    by (rule forEach_world_rel) (simp_all add: updatePlayerMissile_frame)
  then show ?thesis by (simp add: updatePlayerMissiles_def case_prod_beta)
qed

lemma forEach_checkDestruction_score:
  "score (snd (forEach (checkDestruction m c) ss w)) = score w \<and>
   uiScore (snd (forEach (checkDestruction m c) ss w)) = uiScore w"
proof -
  have "(\<lambda>s s'. score s' = score s \<and> uiScore s' = uiScore s) w
      (snd (forEach (checkDestruction m c) ss w))"
    by (rule forEach_world_rel) (simp_all add: checkDestruction_snd)
  then show ?thesis .
qed

lemma destroyStructures_score:
  "score (destroyStructures m c w) = score w \<and> uiScore (destroyStructures m c w) = uiScore w"
  by (simp add: destroyStructures_def case_prod_beta Let_def forEach_checkDestruction_score)

lemma updateEnemyMissile_score:
  "score (snd (updateEnemyMissile dt c m w)) = score w \<and>
   uiScore (snd (updateEnemyMissile dt c m w)) = uiScore w"
  by (simp add: updateEnemyMissile_def Let_def case_prod_beta random_def destroyStructures_score)

lemma updateEnemyMissiles_score:
  "score (updateEnemyMissiles dt c w) = score w \<and> uiScore (updateEnemyMissiles dt c w) = uiScore w"
proof -
  have "(\<lambda>s s'. score s' = score s \<and> uiScore s' = uiScore s)
      w (snd (forEach (updateEnemyMissile dt c) (enemyMissiles w) w))"
    by (rule forEach_world_rel) (simp_all add: updateEnemyMissile_score)
  then show ?thesis by (simp add: updateEnemyMissiles_def case_prod_beta)
qed

lemma updateEnemyMissiles_nil: "enemyMissiles w = [] \<Longrightarrow> updateEnemyMissiles dt c w = w"
  by (simp add: updateEnemyMissiles_def)

lemma forEach_collide_towers: "towers (snd (forEach (collide e c) ms w)) = towers w"
proof -
  have "(\<lambda>s s'. towers s' = towers s) w (snd (forEach (collide e c) ms w))"
    by (rule forEach_world_rel) (simp_all add: collide_snd)
  then show ?thesis .
qed

lemma updateExplosion_towers: "towers (snd (updateExplosion dt c e w)) = towers w"
  by (simp add: updateExplosion_def Let_def case_prod_beta forEach_collide_towers)

lemma updateExplosions_towers: "towers (updateExplosions dt c w) = towers w"
proof -
  have "(\<lambda>s s'. towers s' = towers s) w (snd (forEach (updateExplosion dt c) (explosions w) w))"
    by (rule forEach_world_rel) (simp_all add: updateExplosion_towers)
  then show ?thesis by (simp add: updateExplosions_def case_prod_beta)
qed

lemma updateExplosions_score:
  "\<exists>k. score (updateExplosions dt c w) = score w + 20 * int k"
  using updateExplosions_eq[of dt c w] by blast

lemma updateExplosions_calm:
  assumes "enemyMissiles w = []"
  shows "score (updateExplosions dt c w) = score w \<and> enemyMissiles (updateExplosions dt c w) = []"
  using updateExplosions_eq[of dt c w] assms by auto

lemma cleanup_fields:
  "score (cleanup w) = score w \<and> towers (cleanup w) = towers w \<and>
   (\<forall>m\<in>set (playerMissiles (cleanup w)). active m) \<and>
   (\<forall>m\<in>set (enemyMissiles (cleanup w)). active m) \<and>
   (\<forall>e\<in>set (explosions (cleanup w)). active e)"
  by (simp add: cleanup_def)

lemma motion_score: "\<exists>k. score (motion dt c w) = score w + 20 * int k"
  using updateExplosions_score[of dt c "updateEnemyMissiles dt c (updatePlayerMissiles dt c w)"]
  by (simp add: motion_def cleanup_fields updateEnemyMissiles_score updatePlayerMissiles_frame)

lemma motion_calm:
  assumes "enemyMissiles w = []"
  shows "score (motion dt c w) = score w \<and> towers (motion dt c w) = towers w"
proof -
  define w1 where "w1 = updatePlayerMissiles dt c w"
  have e: "enemyMissiles w1 = []" "score w1 = score w" "towers w1 = towers w"
    using assms by (simp_all add: w1_def updatePlayerMissiles_frame)
  have w2: "updateEnemyMissiles dt c w1 = w1" using e(1) by (rule updateEnemyMissiles_nil)
  show ?thesis
    using updateExplosions_calm[OF e(1), of dt c] e
    by (simp add: motion_def cleanup_fields w1_def[symmetric] w2 updateExplosions_towers)
qed

lemma motion_active:
  "(\<forall>m\<in>set (playerMissiles (motion dt c w)). active m) \<and>
   (\<forall>m\<in>set (enemyMissiles (motion dt c w)). active m) \<and>
   (\<forall>e\<in>set (explosions (motion dt c w)). active e)"
  by (simp add: motion_def cleanup_def)

subsection \<open>The loop always returns\<close>

text \<open>
  \<^verbatim>\<open>Math.random()\<close> returns a number from 0 up to, not including, 1. With such draws the
  index into the targets is in range and \<open>update\<close> always returns a state.
\<close>

lemma pickTarget_total:
  assumes "\<forall>k. 0 \<le> rnd c k \<and> rnd c k < 1"
  shows "\<exists>t w'. pickTarget c g ts w = Some (t, w')"
proof (cases "0 < length ts \<and> rnd c (rng w) < 0.7")
  case True
  define r where "r = rnd c (Suc (rng w))"
  define n where "n = length ts"
  have r: "0 \<le> r" "r < 1" using assms by (simp_all add: r_def)
  have n: "0 < n" using True by (simp add: n_def)
  have "0 \<le> r * real n" using r(1) by simp
  then have a: "0 \<le> \<lfloor>r * real n\<rfloor>" by simp
  have "r * real n < 1 * real n" using r(2) n by (intro mult_strict_right_mono) simp_all
  then have b: "\<lfloor>r * real n\<rfloor> < int n" by (simp add: floor_less_iff)
  show ?thesis
    using True a b by (simp add: pickTarget_def random_def Let_def r_def n_def)
next
  case False
  then show ?thesis by (auto simp: pickTarget_def random_def Let_def)
qed

lemma spawnEnemy_total:
  assumes "\<forall>k. 0 \<le> rnd c k \<and> rnd c k < 1"
  shows "\<exists>s. spawnEnemy c w = Some s"
proof -
  from pickTarget_total[OF assms] obtain t w' where
    "pickTarget c (rnd c (Suc (rng w)) * GAME_WIDTH, GAME_HEIGHT - GROUND_HEIGHT)
        (filter active (map asObject (cities w) @ map asObject (towers w)))
        (w\<lparr>spawnTimer := 0, enemiesSpawned := enemiesSpawned w + 1, rng := Suc (Suc (rng w))\<rparr>) =
        Some (t, w')" by blast
  then show ?thesis
    by (cases t) (simp add: spawnEnemy_def random_def Let_def)
qed

lemma spawnEnemies_total:
  assumes "\<forall>k. 0 \<le> rnd c k \<and> rnd c k < 1"
  shows "\<exists>s. spawnEnemies dt c w = Some s"
proof (cases "enemiesSpawned w < enemiesToSpawn w \<and> spawnInterval w < spawnTimer w + dt")
  case True
  from spawnEnemy_total[OF assms, of "w\<lparr>spawnTimer := spawnTimer w + dt\<rparr>"] True
  show ?thesis by (simp add: spawnEnemies_def Let_def)
next
  case False
  then show ?thesis by (auto simp: spawnEnemies_def Let_def)
qed

lemma tick_total:
  assumes "\<forall>k. 0 \<le> rnd c k \<and> rnd c k < 1"
  shows "\<exists>w'. tick dt c w = Some w'"
proof -
  from spawnEnemies_total[OF assms] obtain s where "spawnEnemies dt c w = Some s" by blast
  then show ?thesis by (simp add: tick_def)
qed

lemma update_total:
  assumes "\<forall>k. 0 \<le> rnd c k \<and> rnd c k < 1"
  shows "\<exists>w'. update time c w = Some w'"
proof (cases "gameState w = Playing")
  case True
  then show ?thesis using tick_total[OF assms] by (simp add: update_def Let_def)
next
  case False
  then show ?thesis by (simp add: update_def Let_def)
qed

subsection \<open>The order of the transitions in a tick\<close>

lemma update_Playing:
  "gameState w = Playing \<Longrightarrow>
   update time c w = tick (time - (if lastTime w = 0 then time else lastTime w)) c (w\<lparr>lastTime := time\<rparr>)"
  by (simp add: update_def Let_def)

lemma update_idle: "gameState w \<noteq> Playing \<Longrightarrow> update time c w = Some (w\<lparr>lastTime := time\<rparr>)"
  by (simp add: update_def Let_def)

lemma tick_split:
  assumes "tick dt c w = Some w'"
  shows "\<exists>s. spawnEnemies dt c w = Some s \<and> w' = checkEndGame (gameState w) (motion dt c s)"
  using assms by (cases "spawnEnemies dt c w") (simp_all add: tick_def)

lemma tick_pending:
  assumes "gameState w = Playing" and "tick dt c w = Some w'"
  shows "pendingGameState w' =
    pendingGameState w @
    (if \<not> enemiesSpawned w < enemiesToSpawn w \<and> enemyMissiles w = [] \<and> explosions w = []
     then [Wave_complete] else []) @
    (if filter active (towers w') = [] then [Defeat]
     else if WIN_SCORE \<le> score w' then [Victory] else [])"
proof -
  from tick_split[OF assms(2)] obtain s where s: "spawnEnemies dt c w = Some s"
    and w': "w' = checkEndGame (gameState w) (motion dt c s)" by blast
  have p: "pendingGameState s = pendingGameState w @
    (if \<not> enemiesSpawned w < enemiesToSpawn w \<and> enemyMissiles w = [] \<and> explosions w = []
     then [Wave_complete] else [])"
  proof (cases "\<not> enemiesSpawned w < enemiesToSpawn w \<and> enemyMissiles w = [] \<and> explosions w = []")
    case True
    then have "s = waveComplete w" using s by (simp add: spawnEnemies_done)
    then show ?thesis using True by (simp add: waveComplete_fields)
  next
    case False
    from spawnEnemies_fields[OF s False] have "pendingGameState s = pendingGameState w" by blast
    then show ?thesis using False by simp
  qed
  have m: "pendingGameState (motion dt c s) = pendingGameState s"
    using steady_motion[of s dt c] by (simp add: steady_def)
  have t: "towers w' = towers (motion dt c s)" "score w' = score (motion dt c s)"
    by (simp_all add: w' checkEndGame_fields)
  have "pendingGameState w' = pendingGameState (motion dt c s) @
       (if filter active (towers (motion dt c s)) = [] then [Defeat]
        else if WIN_SCORE \<le> score (motion dt c s) \<and> gameState w = Playing then [Victory] else [])"
    unfolding w' using checkEndGame_fields[of "gameState w" "motion dt c s"] by blast
  then show ?thesis
    unfolding t m p using assms(1) by simp
qed

lemma update_pending:
  assumes "gameState w = Playing" and "update time c w = Some w'"
  shows "pendingGameState w' =
    pendingGameState w @
    (if \<not> enemiesSpawned w < enemiesToSpawn w \<and> enemyMissiles w = [] \<and> explosions w = []
     then [Wave_complete] else []) @
    (if filter active (towers w') = [] then [Defeat]
     else if WIN_SCORE \<le> score w' then [Victory] else [])"
proof -
  have "tick (time - (if lastTime w = 0 then time else lastTime w)) c (w\<lparr>lastTime := time\<rparr>) = Some w'"
    using assms by (simp add: update_Playing)
  from tick_pending[OF _ this] assms(1) show ?thesis by simp
qed

text \<open>
  C2, as the code has it. In one tick of a playing session the state updates are requested
  in this order: first \<open>Wave_complete\<close>, decided by step 1 on the state as the tick finds
  it (the spawn budget is exhausted and no enemy missile and no explosion is listed), before
  any missile or explosion is moved; then, after the motion, collision and cleanup steps,
  \<open>Defeat\<close> if no tower is active in the resulting state, otherwise \<open>Victory\<close> if the resulting
  score has reached \<open>WIN_SCORE\<close>. Nothing else is requested.
\<close>

theorem tick_order:
  assumes "gameState w = Playing" and "update time c w = Some w'"
  shows "pendingGameState w' =
    pendingGameState w @
    (if \<not> enemiesSpawned w < enemiesToSpawn w \<and> enemyMissiles w = [] \<and> explosions w = []
     then [Wave_complete] else []) @
    (if filter active (towers w') = [] then [Defeat]
     else if WIN_SCORE \<le> score w' then [Victory] else [])"
  using assms by (rule update_pending)

lemma raceExample_update:
  "update 1016 env0 raceExample =
     Some (checkEndGame Playing (motion 16 env0 (waveComplete (raceExample\<lparr>lastTime := 1016\<rparr>))))"
  by (simp add: update_def tick_def spawnEnemies_def raceExample_def initial_def Let_def)

theorem tick_order_witness:
  "gameState raceExample = Playing \<and>
   (\<exists>w'. update 1016 env0 raceExample = Some w' \<and> pendingGameState w' = [Wave_complete])"
proof -
  define w' where "w' = checkEndGame Playing (motion 16 env0 (waveComplete (raceExample\<lparr>lastTime := 1016\<rparr>)))"
  have g: "gameState raceExample = Playing" by (simp add: raceExample_def)
  have u: "update 1016 env0 raceExample = Some w'"
    by (simp add: raceExample_update w'_def)
  have c: "score w' = 15 \<and> map active (towers w') = [True]"
    using motion_calm[of "waveComplete (raceExample\<lparr>lastTime := 1016\<rparr>)" 16 env0]
    by (simp add: w'_def checkEndGame_fields waveComplete_fields ammoBonus_sum AMMO_BONUS_def
        raceExample_def initial_def)
  then have f: "filter active (towers w') \<noteq> []" by (cases "towers w'") auto
  from tick_order[OF g u] have "pendingGameState w' = [Wave_complete]"
    using c f by (simp add: raceExample_def initial_def WIN_SCORE_def)
  with g u show ?thesis by blast
qed

lemma raceExample_motion:
  "map (\<lambda>e. (x e, y e, maxRadius e, duration e, age e, active e))
     (explosions (motion 16 env0 raceExample)) = [(400, 300, 70, 1200, 16, True)] \<and>
   playerMissiles (motion 16 env0 raceExample) = [] \<and>
   enemyMissiles (motion 16 env0 raceExample) = []"
  by (simp add: motion_def updatePlayerMissiles_def updatePlayerMissile_def
      updateEnemyMissiles_def updateExplosions_def updateExplosion_def cleanup_def
      raceExample_def initial_def env0_def random_def Let_def blastRadius_def)

text \<open>
  C2, as worded, fails: in \<open>raceExample\<close> the wave is over and a player missile is about to
  explode. The code requests \<open>Wave_complete\<close> in this tick, since step 1 runs before the
  missile moves; with the wave-complete check placed after the motion and collision updates
  the fresh explosion would postpone it.
\<close>

theorem worded_order_counterexample:
  "map_option pendingGameState (tick 16 env0 raceExample) = Some [Wave_complete] \<and>
   map_option pendingGameState (tickAsWorded 16 env0 raceExample) = Some []"
proof -
  have g: "gameState raceExample = Playing" by (simp add: raceExample_def)
  define w' where "w' = checkEndGame Playing (motion 16 env0 (waveComplete raceExample))"
  have u: "tick 16 env0 raceExample = Some w'"
    by (simp add: tick_def spawnEnemies_def raceExample_def initial_def Let_def w'_def)
  have c: "score w' = 15 \<and> map active (towers w') = [True]"
    using motion_calm[of "waveComplete raceExample" 16 env0]
    by (simp add: w'_def checkEndGame_fields waveComplete_fields ammoBonus_sum AMMO_BONUS_def
        raceExample_def initial_def)
  then have f: "filter active (towers w') \<noteq> []" by (cases "towers w'") auto
  from tick_pending[OF g u] have a: "pendingGameState w' = [Wave_complete]"
    using c f by (simp add: raceExample_def initial_def WIN_SCORE_def)
  have e: "explosions (motion 16 env0 raceExample) \<noteq> []"
    using raceExample_motion by auto
  have t: "towers (motion 16 env0 raceExample) = towers raceExample"
      "score (motion 16 env0 raceExample) = score raceExample"
      "pendingGameState (motion 16 env0 raceExample) = pendingGameState raceExample"
    using motion_calm[of raceExample 16 env0] steady_motion[of raceExample 16 env0]
    by (simp_all add: steady_def raceExample_def initial_def)
  have "tickAsWorded 16 env0 raceExample = Some (checkEndGame Playing (motion 16 env0 raceExample))"
    using e by (simp add: tickAsWorded_def spawnOnly_def waveCheck_def g)
       (simp add: raceExample_def initial_def)
  then have b: "map_option pendingGameState (tickAsWorded 16 env0 raceExample) = Some []"
    by (simp add: checkEndGame_fields t) (simp add: raceExample_def initial_def WIN_SCORE_def)
  from a u b show ?thesis by simp
qed

subsection \<open>Wave completion and victory\<close>

lemma tick_wave_done:
  assumes "\<not> enemiesSpawned w < enemiesToSpawn w" and "enemyMissiles w = []" and "explosions w = []"
  shows "\<exists>w'. tick dt c w = Some w' \<and>
    score w' = score w + ammoBonus (towers w) \<and> towers w' = towers w \<and>
    timers w' = Suc (timers w) \<and>
    waveMessage w' = ''+'' @ toString (ammoBonus (towers w)) @ '' Pts''"
proof -
  define s where "s = waveComplete w"
  define w' where "w' = checkEndGame (gameState w) (motion dt c s)"
  have t: "tick dt c w = Some w'"
    using assms by (simp add: tick_def spawnEnemies_done s_def w'_def)
  have e: "enemyMissiles s = []" using assms(2) by (simp add: s_def waveComplete_fields)
  have m: "score (motion dt c s) = score s" "towers (motion dt c s) = towers s"
    using motion_calm[OF e, of dt c] by simp_all
  have st: "timers (motion dt c s) = timers s" "waveMessage (motion dt c s) = waveMessage s"
    using steady_motion[of s dt c] by (simp_all add: steady_def)
  have "score w' = score w + ammoBonus (towers w) \<and> towers w' = towers w \<and>
    timers w' = Suc (timers w) \<and>
    waveMessage w' = ''+'' @ toString (ammoBonus (towers w)) @ '' Pts''"
    by (simp add: w'_def checkEndGame_fields m st) (simp add: s_def waveComplete_fields)
  with t show ?thesis by blast
qed

text \<open>
  C5. In a well-formed playing state, a tick requests \<open>Wave_complete\<close> exactly when, as the
  tick starts, the number of enemies spawned equals the number to spawn and no active enemy
  missile and no active explosion remains. When it does, the score grows by the sum over the
  active towers of 5 times their ammo, the message recorded for display is that bonus
  (``+bonus Pts''), and the timer of the transition is set.
\<close>

theorem wave_complete_bonus:
  assumes "wellFormed w" and "gameState w = Playing" and "update time c w = Some w'"
  shows "(Wave_complete \<in> set (pendingGameState w') \<longleftrightarrow>
      enemiesSpawned w = enemiesToSpawn w \<and> \<not> (\<exists>m\<in>set (enemyMissiles w). active m) \<and>
      \<not> (\<exists>e\<in>set (explosions w). active e)) \<and>
    (Wave_complete \<in> set (pendingGameState w') \<longrightarrow>
      score w' = score w + (\<Sum>t\<leftarrow>filter active (towers w). ammo t * 5) \<and>
      waveMessage w' = ''+'' @ toString (\<Sum>t\<leftarrow>filter active (towers w). ammo t * 5) @ '' Pts'' \<and>
      timers w' = Suc (timers w))"
proof -
  define fin where "fin \<longleftrightarrow>
    \<not> enemiesSpawned w < enemiesToSpawn w \<and> enemyMissiles w = [] \<and> explosions w = []"
  have wf: "enemiesSpawned w \<le> enemiesToSpawn w" "\<forall>m\<in>set (enemyMissiles w). active m"
    "\<forall>e\<in>set (explosions w). active e" "pendingGameState w = []"
    using assms(1) by (simp_all add: wellFormed_def)
  have em: "(enemyMissiles w = []) = (\<not> (\<exists>m\<in>set (enemyMissiles w). active m))"
    using wf(2) by (cases "enemyMissiles w") auto
  have ex: "(explosions w = []) = (\<not> (\<exists>e\<in>set (explosions w). active e))"
    using wf(3) by (cases "explosions w") auto
  have d: "fin \<longleftrightarrow> enemiesSpawned w = enemiesToSpawn w \<and>
      \<not> (\<exists>m\<in>set (enemyMissiles w). active m) \<and> \<not> (\<exists>e\<in>set (explosions w). active e)"
    unfolding fin_def em ex using wf(1) by auto
  have p: "Wave_complete \<in> set (pendingGameState w') \<longleftrightarrow> fin"
    using update_pending[OF assms(2,3)] wf(4) by (simp add: fin_def)
  have t: "tick (time - (if lastTime w = 0 then time else lastTime w)) c (w\<lparr>lastTime := time\<rparr>) = Some w'"
    using assms by (simp add: update_Playing)
  have b: "score w' = score w + ammoBonus (towers w) \<and>
      waveMessage w' = ''+'' @ toString (ammoBonus (towers w)) @ '' Pts'' \<and>
      timers w' = Suc (timers w)" if "fin"
    using tick_wave_done[of "w\<lparr>lastTime := time\<rparr>"
        "time - (if lastTime w = 0 then time else lastTime w)" c] that t
    by (auto simp: fin_def)
  show ?thesis
    using p d b by (simp add: ammoBonus_sum AMMO_BONUS_def)
qed

theorem wave_complete_bonus_witness:
  "wellFormed waveExample \<and> gameState waveExample = Playing \<and>
   (\<exists>w'. update 1016 env0 waveExample = Some w' \<and>
      Wave_complete \<in> set (pendingGameState w') \<and> score w' = score waveExample + 75 \<and>
      waveMessage w' = ''+75 Pts'' \<and> timers w' = 1)"
proof -
  define w' where "w' = checkEndGame Playing (motion 16 env0 (waveComplete (waveExample\<lparr>lastTime := 1016\<rparr>)))"
  have wf: "wellFormed waveExample" by (simp add: wellFormed_def waveExample_def initial_def)
  have g: "gameState waveExample = Playing" by (simp add: waveExample_def)
  have u: "update 1016 env0 waveExample = Some w'"
    by (simp add: update_def tick_def spawnEnemies_def waveExample_def initial_def Let_def w'_def)
  have s: "(\<Sum>t\<leftarrow>filter active (towers waveExample). ammo t * 5) = 75"
    by (simp add: waveExample_def)
  have ts: "toString 75 = ''75''" by (simp add: toString_def)
  from wave_complete_bonus[OF wf g u]
  have "Wave_complete \<in> set (pendingGameState w') \<and> score w' = score waveExample + 75 \<and>
      waveMessage w' = ''+75 Pts'' \<and> timers w' = 1"
    unfolding s ts by (simp add: waveExample_def initial_def)
  with wf g u show ?thesis by blast
qed

text \<open>
  C10. When the wave-complete branch raises a score below \<open>WIN_SCORE\<close> to \<open>WIN_SCORE\<close> or
  more, the check at the end of the same tick, which still reads \<open>gameState\<close> as \<open>Playing\<close>,
  requests \<open>Victory\<close> after \<open>Wave_complete\<close>: once rendered the session is in \<open>Victory\<close>,
  while the timer of the wave-complete transition is still pending.
\<close>

theorem victory_same_tick:
  assumes "gameState w = Playing" and "pendingGameState w = []"
    and "\<not> enemiesSpawned w < enemiesToSpawn w" and "enemyMissiles w = []" and "explosions w = []"
    and "score w < WIN_SCORE" and "WIN_SCORE \<le> score w + ammoBonus (towers w)"
  shows "\<exists>w'. update time c w = Some w' \<and>
    pendingGameState w' = [Wave_complete, Victory] \<and>
    gameState (render w') = Victory \<and>
    timers w' = Suc (timers w) \<and>
    score w' = score w + ammoBonus (towers w)"
proof -
  from tick_wave_done[of "w\<lparr>lastTime := time\<rparr>" "time - (if lastTime w = 0 then time else lastTime w)" c]
    assms(3-5)
  obtain w' where t: "tick (time - (if lastTime w = 0 then time else lastTime w)) c (w\<lparr>lastTime := time\<rparr>) = Some w'"
    and f: "score w' = score w + ammoBonus (towers w)" "towers w' = towers w" "timers w' = Suc (timers w)"
    by auto
  have u: "update time c w = Some w'" using assms(1) t by (simp add: update_Playing)
  have "ammoBonus (towers w) \<noteq> 0" using assms(6,7) by simp
  then have a: "filter active (towers w') \<noteq> []" unfolding f(2) by (rule ammoBonus_active)
  have p: "pendingGameState w' = [Wave_complete, Victory]"
    using update_pending[OF assms(1) u] assms(2-5,7) a f(1) by simp
  then have "gameState (render w') = Victory" by (simp add: render_def)
  with u p f show ?thesis by blast
qed

theorem victory_same_tick_witness:
  "score waveExample < WIN_SCORE \<and> WIN_SCORE \<le> score waveExample + ammoBonus (towers waveExample) \<and>
   (\<exists>w'. update 1016 env0 waveExample = Some w' \<and>
      pendingGameState w' = [Wave_complete, Victory] \<and> gameState (render w') = Victory \<and>
      timers w' = 1 \<and> score w' = 1005)"
  using victory_same_tick[of waveExample 1016 env0]
  by (simp add: waveExample_def initial_def WIN_SCORE_def ammoBonus_def AMMO_BONUS_def)

subsection \<open>Invariants of a session\<close>

lemma towerRel_bounds:
  assumes "list_all2 towerRel ts ts'" and "\<forall>t\<in>set ts. 0 \<le> ammo t \<and> ammo t \<le> maxAmmo t"
  shows "\<forall>t\<in>set ts'. 0 \<le> ammo t \<and> ammo t \<le> maxAmmo t"
proof
  fix t' assume "t' \<in> set ts'"
  then obtain i where i: "i < length ts'" "ts' ! i = t'" by (auto simp: in_set_conv_nth)
  from assms(1) i(1) have l: "i < length ts" and r: "towerRel (ts ! i) (ts' ! i)"
    by (simp_all add: list_all2_conv_all_nth)
  from l assms(2) have "0 \<le> ammo (ts ! i) \<and> ammo (ts ! i) \<le> maxAmmo (ts ! i)" by simp
  with r i(2) show "0 \<le> ammo t' \<and> ammo t' \<le> maxAmmo t'" by (simp add: towerRel_def)
qed

lemma render_fields:
  "pendingGameState (render w) = [] \<and> towers (render w) = towers w \<and>
   enemiesSpawned (render w) = enemiesSpawned w \<and> enemiesToSpawn (render w) = enemiesToSpawn w \<and>
   wave (render w) = wave w \<and> playerMissiles (render w) = playerMissiles w \<and>
   enemyMissiles (render w) = enemyMissiles w \<and> explosions (render w) = explosions w \<and>
   score (render w) = score w"
  by (simp add: render_def)

lemma wellFormed_render:
  assumes "(\<forall>t\<in>set (towers w). 0 \<le> ammo t \<and> ammo t \<le> maxAmmo t)"
    and "enemiesSpawned w \<le> enemiesToSpawn w" and "1 \<le> wave w"
    and "\<forall>m\<in>set (playerMissiles w). active m" and "\<forall>m\<in>set (enemyMissiles w). active m"
    and "\<forall>e\<in>set (explosions w). active e"
  shows "wellFormed (render w)"
  using assms by (simp add: wellFormed_def render_fields)

lemma wellFormed_initial: "wellFormed initial"
  by (simp add: wellFormed_def initial_def)

lemma wellFormed_start: "wellFormed (render (initGame True w))"
  by (rule wellFormed_render) (simp_all add: initGame_def setGameState_def Let_def)

lemma wellFormed_timeout:
  assumes "wellFormed w"
  shows "wellFormed (render (waveTimeout w))"
proof (rule wellFormed_render)
  show "\<forall>t\<in>set (towers (waveTimeout w)). 0 \<le> ammo t \<and> ammo t \<le> maxAmmo t"
    using assms by (auto simp: wellFormed_def waveTimeout_def startNextWave_def setGameState_def Let_def)
  show "enemiesSpawned (waveTimeout w) \<le> enemiesToSpawn (waveTimeout w)"
    using assms by (simp add: wellFormed_def waveTimeout_def startNextWave_def setGameState_def Let_def)
  show "1 \<le> wave (waveTimeout w)"
    using assms by (simp add: wellFormed_def waveTimeout_def startNextWave_def setGameState_def Let_def)
  show "\<forall>m\<in>set (playerMissiles (waveTimeout w)). active m"
    using assms by (simp add: wellFormed_def waveTimeout_def startNextWave_def setGameState_def Let_def)
  show "\<forall>m\<in>set (enemyMissiles (waveTimeout w)). active m"
    using assms by (simp add: wellFormed_def waveTimeout_def startNextWave_def setGameState_def Let_def)
  show "\<forall>e\<in>set (explosions (waveTimeout w)). active e"
    using assms by (simp add: wellFormed_def waveTimeout_def startNextWave_def setGameState_def Let_def)
qed

lemma fire_fields:
  "pendingGameState (fire tx ty c w) = pendingGameState w \<and> score (fire tx ty c w) = score w \<and>
   enemiesSpawned (fire tx ty c w) = enemiesSpawned w \<and>
   enemiesToSpawn (fire tx ty c w) = enemiesToSpawn w \<and> wave (fire tx ty c w) = wave w \<and>
   enemyMissiles (fire tx ty c w) = enemyMissiles w \<and> explosions (fire tx ty c w) = explosions w \<and>
   length (towers (fire tx ty c w)) = length (towers w) \<and>
   (\<forall>i<length (towers w).
      ammo (towers (fire tx ty c w) ! i) = ammo (towers w ! i) \<and>
        maxAmmo (towers (fire tx ty c w) ! i) = maxAmmo (towers w ! i) \<or>
      0 < ammo (towers w ! i) \<and> ammo (towers (fire tx ty c w) ! i) = ammo (towers w ! i) - 1 \<and>
        maxAmmo (towers (fire tx ty c w) ! i) = maxAmmo (towers w ! i)) \<and>
   (\<forall>m\<in>set (playerMissiles (fire tx ty c w)). m \<in> set (playerMissiles w) \<or> active m)"
proof (cases "ty \<le> GAME_HEIGHT - GROUND_HEIGHT + 10 \<and> (\<exists>t\<in>set (towers w). active t \<and> 0 < ammo t)")
  case True
  from fire_launch[of ty w tx c] True obtain k where k: "k < length (towers w)"
    "0 < ammo (towers w ! k)"
    and f: "fire tx ty c w =
      w\<lparr>towers := (towers w)[k := (towers w ! k)\<lparr>ammo := ammo (towers w ! k) - 1\<rparr>],
        playerMissiles := playerMissiles w @
          [\<lparr>x = x (towers w ! k), y = y (towers w ! k) - 30, id' = now c, active = True,
            startX = x (towers w ! k), startY = y (towers w ! k) - 30,
            targetX = tx, targetY = ty, speed = 0.02, progress = 0,
            missile.color = ''#60a5fa'', trail = []\<rparr>]\<rparr>"
    by (elim exE conjE) blast
  show ?thesis
    unfolding f using k by (auto simp: nth_list_update)
next
  case False
  then have "fire tx ty c w = w"
    using fire_rejected[of ty tx c w] fire_no_ammo[of w tx ty c] by force
  then show ?thesis by simp
qed

lemma handleInput_cases:
  "handleInput canvas clientX clientY c w = w \<or>
   (\<exists>tx ty. handleInput canvas clientX clientY c w = fire tx ty c w)"
  by (cases canvas) (auto simp: handleInput_def Let_def)

lemma wellFormed_fire:
  assumes "wellFormed w"
  shows "wellFormed (fire tx ty c w)"
proof -
  note f = fire_fields[of tx ty c w]
  have "\<forall>t\<in>set (towers (fire tx ty c w)). 0 \<le> ammo t \<and> ammo t \<le> maxAmmo t"
  proof
    fix t assume "t \<in> set (towers (fire tx ty c w))"
    then obtain i where i: "i < length (towers (fire tx ty c w))" "towers (fire tx ty c w) ! i = t"
      by (auto simp: in_set_conv_nth)
    with f have l: "i < length (towers w)" by simp
    then have "0 \<le> ammo (towers w ! i) \<and> ammo (towers w ! i) \<le> maxAmmo (towers w ! i)"
      using assms by (simp add: wellFormed_def)
    moreover from f l have "ammo (towers (fire tx ty c w) ! i) = ammo (towers w ! i) \<and>
        maxAmmo (towers (fire tx ty c w) ! i) = maxAmmo (towers w ! i) \<or>
      0 < ammo (towers w ! i) \<and> ammo (towers (fire tx ty c w) ! i) = ammo (towers w ! i) - 1 \<and>
        maxAmmo (towers (fire tx ty c w) ! i) = maxAmmo (towers w ! i)" by blast
    ultimately show "0 \<le> ammo t \<and> ammo t \<le> maxAmmo t" unfolding i(2)[symmetric] by auto
  qed
  moreover have "\<forall>m\<in>set (playerMissiles (fire tx ty c w)). active m"
    using f assms by (auto simp: wellFormed_def)
  ultimately show ?thesis
    using f assms by (simp add: wellFormed_def)
qed

lemma wellFormed_handleInput:
  "wellFormed w \<Longrightarrow> wellFormed (handleInput canvas clientX clientY c w)"
  using handleInput_cases[of canvas clientX clientY c w] by (auto intro: wellFormed_fire)

lemma wellFormed_tick:
  assumes "wellFormed w" and "tick dt c w = Some w'"
  shows "wellFormed (render w')"
proof -
  from tick_split[OF assms(2)] obtain s where s: "spawnEnemies dt c w = Some s"
    and w': "w' = checkEndGame (gameState w) (motion dt c s)" by blast
  have wf: "\<forall>t\<in>set (towers w). 0 \<le> ammo t \<and> ammo t \<le> maxAmmo t"
    "enemiesSpawned w \<le> enemiesToSpawn w" "1 \<le> wave w"
    using assms(1) by (simp_all add: wellFormed_def)
  have f: "towers s = towers w \<and> enemiesSpawned s \<le> enemiesToSpawn s \<and> wave s = wave w"
  proof (cases "\<not> enemiesSpawned w < enemiesToSpawn w \<and> enemyMissiles w = [] \<and> explosions w = []")
    case True
    then have "s = waveComplete w" using s by (simp add: spawnEnemies_done)
    then show ?thesis using wf by (simp add: waveComplete_fields)
  next
    case False
    from spawnEnemies_fields[OF s False] wf show ?thesis by auto
  qed
  note st = steady_motion[of s dt c, unfolded steady_def]
  show ?thesis
  proof (rule wellFormed_render)
    show "\<forall>t\<in>set (towers w'). 0 \<le> ammo t \<and> ammo t \<le> maxAmmo t"
      unfolding w' using towerRel_bounds[of "towers s" "towers (motion dt c s)"] st f wf(1)
      by (simp add: checkEndGame_fields)
    show "enemiesSpawned w' \<le> enemiesToSpawn w'"
      unfolding w' using st f by (simp add: checkEndGame_fields)
    show "1 \<le> wave w'"
      unfolding w' using st f wf(3) by (simp add: checkEndGame_fields)
    show "\<forall>m\<in>set (playerMissiles w'). active m"
      unfolding w' using motion_active[of dt c s] by (simp add: checkEndGame_fields)
    show "\<forall>m\<in>set (enemyMissiles w'). active m"
      unfolding w' using motion_active[of dt c s] by (simp add: checkEndGame_fields)
    show "\<forall>e\<in>set (explosions w'). active e"
      unfolding w' using motion_active[of dt c s] by (simp add: checkEndGame_fields)
  qed
qed

lemma wellFormed_lastTime: "wellFormed (w\<lparr>lastTime := t\<rparr>) = wellFormed w"
  by (simp add: wellFormed_def)

lemma wellFormed_update:
  assumes "wellFormed w" and "update time c w = Some w'"
  shows "wellFormed (render w')"
proof (cases "gameState w = Playing")
  case True
  with assms(2) have "tick (time - (if lastTime w = 0 then time else lastTime w)) c (w\<lparr>lastTime := time\<rparr>) = Some w'"
    by (simp add: update_Playing)
  moreover have "wellFormed (w\<lparr>lastTime := time\<rparr>)" using assms(1) by (simp add: wellFormed_lastTime)
  ultimately show ?thesis by (rule wellFormed_tick[rotated])
next
  case False
  with assms(2) have "w' = w\<lparr>lastTime := time\<rparr>" by (simp add: update_idle)
  then show ?thesis using assms(1) by (simp add: wellFormed_def render_def)
qed

lemma reachable_wellFormed: "reachable w \<Longrightarrow> wellFormed w"
proof (induction rule: reachable.induct)
  case r_initial
  show ?case by (rule wellFormed_initial)
next
  case (r_frame w time c w')
  then show ?case by (simp add: wellFormed_update)
next
  case (r_input w canvas clientX clientY c)
  then show ?case by (simp add: wellFormed_handleInput)
next
  case (r_timeout w)
  then show ?case by (simp add: wellFormed_timeout)
next
  case (r_start w)
  show ?case by (rule wellFormed_start)
qed

lemma handleInput_towers:
  "length (towers (handleInput canvas clientX clientY c w)) = length (towers w) \<and>
   (\<forall>i<length (towers w).
      ammo (towers (handleInput canvas clientX clientY c w) ! i) = ammo (towers w ! i) \<or>
      0 < ammo (towers w ! i) \<and>
      ammo (towers (handleInput canvas clientX clientY c w) ! i) = ammo (towers w ! i) - 1)"
proof -
  from handleInput_cases[of canvas clientX clientY c w] show ?thesis
  proof
    assume "handleInput canvas clientX clientY c w = w"
    then show ?thesis by simp
  next
    assume "\<exists>tx ty. handleInput canvas clientX clientY c w = fire tx ty c w"
    then obtain tx ty where h: "handleInput canvas clientX clientY c w = fire tx ty c w" by blast
    show ?thesis unfolding h using fire_fields[of tx ty c w] by blast
  qed
qed

lemma handleInput_score: "score (handleInput canvas clientX clientY c w) = score w"
  using handleInput_cases[of canvas clientX clientY c w] fire_fields by auto

text \<open>
  C8. In every state a session can reach between two callbacks, the ammo of every tower is
  between 0 and its maximum. An input leaves the ammo of a tower unchanged or takes exactly
  one round from a tower whose ammo is strictly positive; the replenishment of
  \<open>startNextWave\<close> sets the ammo of every active tower to exactly its maximum (and leaves
  destroyed towers as they are).
\<close>

theorem ammo_bounds:
  assumes "reachable w"
  shows "(\<forall>t\<in>set (towers w). 0 \<le> ammo t \<and> ammo t \<le> maxAmmo t) \<and>
    length (towers (handleInput canvas clientX clientY c w)) = length (towers w) \<and>
    (\<forall>i<length (towers w).
       ammo (towers (handleInput canvas clientX clientY c w) ! i) = ammo (towers w ! i) \<or>
       0 < ammo (towers w ! i) \<and>
       ammo (towers (handleInput canvas clientX clientY c w) ! i) = ammo (towers w ! i) - 1) \<and>
    towers (startNextWave w) = map (\<lambda>t. if active t then t\<lparr>ammo := maxAmmo t\<rparr> else t) (towers w)"
proof -
  from reachable_wellFormed[OF assms]
  have "\<forall>t\<in>set (towers w). 0 \<le> ammo t \<and> ammo t \<le> maxAmmo t" by (simp add: wellFormed_def)
  moreover have "towers (startNextWave w) =
      map (\<lambda>t. if active t then t\<lparr>ammo := maxAmmo t\<rparr> else t) (towers w)"
    by (simp add: startNextWave_def setGameState_def Let_def)
  ultimately show ?thesis using handleInput_towers[of canvas clientX clientY c w] by blast
qed

lemma firedExample:
  "handleInput (Some \<lparr>left' = 0, top' = 0, width' = 800, height' = 600\<rparr>) 420 300 env0 session0 =
     fire 420 300 env0 session0"
  "map (\<lambda>t. (ammo t, maxAmmo t, active t)) (towers (fire 420 300 env0 session0)) =
     [(20, 20, True), (39, 40, True), (20, 20, True)]"
proof -
  show "handleInput (Some \<lparr>left' = 0, top' = 0, width' = 800, height' = 600\<rparr>) 420 300 env0 session0 =
     fire 420 300 env0 session0"
    by (simp add: handleInput_def session0_simps GAME_WIDTH_def GAME_HEIGHT_def)
  show "map (\<lambda>t. (ammo t, maxAmmo t, active t)) (towers (fire 420 300 env0 session0)) =
     [(20, 20, True), (39, 40, True), (20, 20, True)]"
    using fire_launch[of 300 session0 420 env0]
    by (auto simp: session0_simps distance_def GAME_HEIGHT_def GROUND_HEIGHT_def
        less_Suc_eq numeral_3_eq_3)
qed

theorem ammo_bounds_witness:
  "reachable (handleInput (Some \<lparr>left' = 0, top' = 0, width' = 800, height' = 600\<rparr>)
     420 300 env0 session0) \<and>
   map ammo (towers (handleInput (Some \<lparr>left' = 0, top' = 0, width' = 800, height' = 600\<rparr>)
     420 300 env0 session0)) = [20, 39, 20] \<and>
   list_all (\<lambda>t. 0 \<le> ammo t \<and> ammo t \<le> maxAmmo t)
     (towers (handleInput (Some \<lparr>left' = 0, top' = 0, width' = 800, height' = 600\<rparr>)
        420 300 env0 session0)) \<and>
   map ammo (towers (startNextWave
     (handleInput (Some \<lparr>left' = 0, top' = 0, width' = 800, height' = 600\<rparr>)
        420 300 env0 session0))) = [20, 40, 20]"
proof -
  have "reachable session0"
    unfolding session0_def by (rule r_start[OF r_initial]) (simp add: initial_def)
  then have r: "reachable (handleInput (Some \<lparr>left' = 0, top' = 0, width' = 800, height' = 600\<rparr>)
     420 300 env0 session0)" by (rule r_input)
  have t: "map (\<lambda>t. (ammo t, maxAmmo t, active t))
      (towers (handleInput (Some \<lparr>left' = 0, top' = 0, width' = 800, height' = 600\<rparr>)
         420 300 env0 session0)) = [(20, 20, True), (39, 40, True), (20, 20, True)]"
    by (simp only: firedExample)
  from ammo_bounds[OF r, of None 0 0 env0] r t show ?thesis
    by (auto simp: list_all_iff)
qed

lemma motion_score_exact:
  "score (motion dt c s) = score s + 20 * int (interceptions dt c s)"
proof -
  define b where "b = updateEnemyMissiles dt c (updatePlayerMissiles dt c s)"
  have sb: "score b = score s"
    by (simp add: b_def updateEnemyMissiles_score updatePlayerMissiles_frame)
  from updateExplosions_eq[of dt c b]
  have "score (updateExplosions dt c b) =
      score b + 20 * int (length (filter (intercepted dt (explosions b)) (enemyMissiles b)))"
    by blast
  then show ?thesis
    by (simp add: motion_def interceptions_def Let_def b_def[symmetric] cleanup_fields sb)
qed

text \<open>
  C9. From a well-formed state, a tick never decreases the score. Outside the playing state
  it leaves the score alone. In the playing state the score grows by exactly the ammo bonus,
  which is not negative, when the wave completes in this tick, plus exactly 20 for each enemy
  missile intercepted in this tick, and by nothing else. Inputs, the wave timer and rendering
  leave the score alone; only \<open>initGame\<close>, which starts a new session, resets it to 0.
\<close>

theorem score_monotone:
  assumes "wellFormed w"
  shows "(\<forall>time c w'. update time c w = Some w' \<longrightarrow>
      score w \<le> score w' \<and>
      (gameState w \<noteq> Playing \<longrightarrow> score w' = score w) \<and>
      (gameState w = Playing \<longrightarrow>
        (\<exists>s. spawnEnemies (elapsed time w) c (w\<lparr>lastTime := time\<rparr>) = Some s \<and>
           score w' = score w +
             (if Wave_complete \<in> set (pendingGameState w') then ammoBonus (towers w) else 0) +
             20 * int (interceptions (elapsed time w) c s)))) \<and>
    0 \<le> ammoBonus (towers w) \<and>
    score (handleInput canvas clientX clientY c0 w) = score w \<and>
    score (waveTimeout w) = score w \<and>
    score (render w) = score w \<and>
    score (initGame True w) = 0"
proof -
  have wf: "\<forall>t\<in>set (towers w). 0 \<le> ammo t" "pendingGameState w = []"
    using assms by (simp_all add: wellFormed_def)
  have b: "0 \<le> ammoBonus (towers w)" using wf(1) by (rule ammoBonus_nonneg)
  have idle: "score w' = score w"
    if u: "update time c w = Some w'" and g: "gameState w \<noteq> Playing" for time c w'
  proof -
    from u g have "w' = w\<lparr>lastTime := time\<rparr>" by (simp add: update_idle)
    then show ?thesis by simp
  qed
  have play: "\<exists>s. spawnEnemies (elapsed time w) c (w\<lparr>lastTime := time\<rparr>) = Some s \<and>
        score w' = score w +
          (if Wave_complete \<in> set (pendingGameState w') then ammoBonus (towers w) else 0) +
          20 * int (interceptions (elapsed time w) c s)"
    if u: "update time c w = Some w'" and g: "gameState w = Playing" for time c w'
  proof -
    define dt where "dt = elapsed time w"
    define w1 where "w1 = w\<lparr>lastTime := time\<rparr>"
    have t: "tick dt c w1 = Some w'"
      using u g by (simp add: update_Playing dt_def w1_def elapsed_def)
    note p = update_pending[OF g u, unfolded wf(2)]
    from tick_split[OF t] obtain s where s: "spawnEnemies dt c w1 = Some s"
      and w': "w' = checkEndGame (gameState w1) (motion dt c s)" by blast
    have sc: "score w' = score s + 20 * int (interceptions dt c s)"
      by (simp add: w' checkEndGame_fields motion_score_exact)
    have "score s = score w +
        (if Wave_complete \<in> set (pendingGameState w') then ammoBonus (towers w) else 0)"
    proof (cases "\<not> enemiesSpawned w < enemiesToSpawn w \<and> enemyMissiles w = [] \<and> explosions w = []")
      case d: True
      then have "s = waveComplete w1" using s by (simp add: spawnEnemies_done w1_def)
      then have "score s = score w + ammoBonus (towers w)"
        by (simp add: waveComplete_fields w1_def)
      moreover from p d have "Wave_complete \<in> set (pendingGameState w')" by simp
      ultimately show ?thesis by simp
    next
      case d: False
      from d have d1: "\<not> (\<not> enemiesSpawned w1 < enemiesToSpawn w1 \<and> enemyMissiles w1 = [] \<and>
          explosions w1 = [])" by (simp add: w1_def)
      from spawnEnemies_fields[OF s d1] have "score s = score w" by (simp add: w1_def)
      moreover from p d have "Wave_complete \<notin> set (pendingGameState w')" by simp
      ultimately show ?thesis by simp
    qed
    with sc s show ?thesis unfolding dt_def w1_def by (intro exI[of _ s]) simp
  qed
  have m: "score w \<le> score w'" if u: "update time c w = Some w'" for time c w'
  proof (cases "gameState w = Playing")
    case True
    from play[OF u True] b show ?thesis by auto
  next
    case False
    from idle[OF u False] show ?thesis by simp
  qed
  have "score (waveTimeout w) = score w"
    by (simp add: waveTimeout_def startNextWave_def setGameState_def Let_def)
  moreover have "score (initGame True w) = 0"
    by (simp add: initGame_def setGameState_def Let_def)
  ultimately show ?thesis
    using idle play m b by (simp add: handleInput_score render_fields)
qed

lemma volleyExample_spawn:
  "spawnEnemies 10 env0 (volleyExample\<lparr>lastTime := 1010\<rparr>) =
     Some (volleyExample\<lparr>lastTime := 1010, spawnTimer := 10\<rparr>)"
  by (simp add: spawnEnemies_def Let_def volleyExample_def blastExample_def initial_def)

lemma volleyExample_interceptions:
  "interceptions 10 env0 (volleyExample\<lparr>lastTime := 1010, spawnTimer := 10\<rparr>) = 1"
  by (simp add: interceptions_def Let_def updatePlayerMissiles_def updateEnemyMissiles_def
      updateEnemyMissile_def random_def env0_def volleyExample_def blastExample_def initial_def
      intercepted_def blasts_def distance_less_iff blastRadius_def power2_eq_square)

theorem score_monotone_witness:
  "wellFormed volleyExample \<and> gameState volleyExample = Playing \<and>
   score volleyExample = 100 \<and>
   interceptions (elapsed 1010 volleyExample) env0
     (volleyExample\<lparr>lastTime := 1010, spawnTimer := 10\<rparr>) = 1 \<and>
   (\<exists>w'. update 1010 env0 volleyExample = Some w' \<and> score volleyExample \<le> score w' \<and>
      score w' = 120) \<and>
   score (initGame True volleyExample) = 0"
proof -
  have wf: "wellFormed volleyExample"
    by (simp add: wellFormed_def volleyExample_def blastExample_def initial_def)
  have g: "gameState volleyExample = Playing"
    by (simp add: volleyExample_def blastExample_def)
  have sc: "score volleyExample = 100" by (simp add: volleyExample_def)
  have el: "elapsed 1010 volleyExample = 10" by (simp add: elapsed_def volleyExample_def)
  have "\<forall>k. 0 \<le> rnd env0 k \<and> rnd env0 k < 1" by (simp add: env0_def)
  from update_total[OF this] obtain w' where u: "update 1010 env0 volleyExample = Some w'"
    by blast
  have nw: "Wave_complete \<notin> set (pendingGameState w')"
    using update_pending[OF g u]
    by (simp add: volleyExample_def blastExample_def initial_def)
  from score_monotone[OF wf, of None 0 0 env0] u g
  have "\<exists>s. spawnEnemies (elapsed 1010 volleyExample) env0 (volleyExample\<lparr>lastTime := 1010\<rparr>) = Some s \<and>
      score w' = score volleyExample +
        (if Wave_complete \<in> set (pendingGameState w') then ammoBonus (towers volleyExample) else 0) +
        20 * int (interceptions (elapsed 1010 volleyExample) env0 s)"
    by blast
  then have "score w' = 120"
    unfolding el volleyExample_spawn using nw
    by (auto simp: volleyExample_interceptions sc)
  with wf g sc u el volleyExample_interceptions score_monotone[OF wf, of None 0 0 env0]
  show ?thesis by auto
qed

end
